theory Spec2Isabelle
  imports Complex_Main "HOL-Library.Multiset"
begin

section \<open>Strings and validation (src/utils/validation.ts)\<close>

text \<open>
  A string is a list of code units. The model covers the code units up to U+00FF, where
  the white space and line terminators that \<^verbatim>\<open>String.prototype.trim\<close> strips
  are TAB, LF, VT, FF, CR, SPACE and NBSP.
\<close>

definition is_ws :: "char \<Rightarrow> bool" where
  "is_ws c = (of_char c \<in> {9::nat, 10, 11, 12, 13, 32, 160})"

definition trim :: "string \<Rightarrow> string" where
  "trim s = rev (dropWhile is_ws (rev (dropWhile is_ws s)))"

text \<open>\<^verbatim>\<open>validateNonEmptyString\<close>: the trimmed string, or null (\<open>None\<close>) when it is empty.\<close>

definition validateNonEmptyString :: "string \<Rightarrow> string option" where
  "validateNonEmptyString v =
     (let trimmed = trim v in if length trimmed > 0 then Some trimmed else None)"

text \<open>
  A \<^verbatim>\<open>Date\<close> object holds a time value in milliseconds since the epoch, or NaN
  (an invalid date).
\<close>

datatype Date = DateAt int | InvalidDate

fun isValidDate :: "Date \<Rightarrow> bool" where
  "isValidDate (DateAt t) = True"
| "isValidDate InvalidDate = False"

section \<open>Errors and records (src/models/errors.ts, src/models/types.ts)\<close>

text \<open>The error classes, each with its message. \<open>Result<T, E>\<close> is \<open>error + T\<close>.\<close>

datatype error = ValidationError string | StorageError string | NotFoundError string
  | Error string

fun message :: "error \<Rightarrow> string" where
  "message (ValidationError m) = m"
| "message (StorageError m) = m"
| "message (NotFoundError m) = m"
| "message (Error m) = m"

fun isValidationError :: "error \<Rightarrow> bool" where
  "isValidationError (ValidationError m) = True"
| "isValidationError _ = False"

fun isNotFoundError :: "error \<Rightarrow> bool" where
  "isNotFoundError (NotFoundError m) = True"
| "isNotFoundError _ = False"

text \<open>The fields of \<open>Course\<close> carry the prefix \<open>c_\<close>, those of \<open>Task\<close> the prefix \<open>t_\<close>.\<close>

record Course =
  c_id :: string
  c_name :: string
  c_department :: string
  c_createdAt :: Date

record Task =
  t_id :: string
  t_courseId :: string
  t_description :: string
  t_deadline :: Date
  t_completed :: bool
  t_completedAt :: "Date option"
  t_createdAt :: Date

text \<open>
  \<open>Partial<Task>\<close> as \<^verbatim>\<open>updateTask\<close> reads it: a field left out is \<open>None\<close>.
  (\<^verbatim>\<open>updateTask\<close> never reads the \<open>id\<close> or \<open>createdAt\<close> of its updates.)
\<close>

record TaskUpdates =
  u_description :: "string option"
  u_deadline :: "Date option"
  u_courseId :: "string option"
  u_completed :: "bool option"
  u_completedAt :: "Date option"

definition noUpdates :: TaskUpdates where
  "noUpdates = \<lparr>u_description = None, u_deadline = None, u_courseId = None,
     u_completed = None, u_completedAt = None\<rparr>"

record CourseUpdates =
  u_name :: "string option"
  u_department :: "string option"

section \<open>The JavaScript Map\<close>

text \<open>
  A \<^verbatim>\<open>Map<string, V>\<close> keeps its entries in insertion order: \<^verbatim>\<open>set\<close> on a
  present key replaces the value in place, on a new key it appends; \<^verbatim>\<open>delete\<close>
  removes the entry.
\<close>

definition map_get :: "'k \<Rightarrow> ('k \<times> 'v) list \<Rightarrow> 'v option" where
  "map_get k m = map_of m k"

definition map_set :: "'k \<Rightarrow> 'v \<Rightarrow> ('k \<times> 'v) list \<Rightarrow> ('k \<times> 'v) list" where
  "map_set k v m =
     (if k \<in> fst ` set m then map (\<lambda>p. if fst p = k then (k, v) else p) m
      else m @ [(k, v)])"

definition map_delete :: "'k \<Rightarrow> ('k \<times> 'v) list \<Rightarrow> ('k \<times> 'v) list" where
  "map_delete k m = filter (\<lambda>p. fst p \<noteq> k) m"

definition map_values :: "('k \<times> 'v) list \<Rightarrow> 'v list" where
  "map_values m = map snd m"

section \<open>The services' state and the storage collaborator\<close>

text \<open>
  \<open>courses\<close> and \<open>tasks\<close> are the in-memory maps of CourseService and TaskService.
  \<open>stored_courses\<close> and \<open>stored_tasks\<close> are the arrays under the storage keys
  \<^verbatim>\<open>tracker:courses\<close> and \<^verbatim>\<open>tracker:tasks\<close>. \<open>faults\<close> scripts the storage
  collaborator: its head decides the next \<^verbatim>\<open>save\<close> (\<open>Some m\<close>: it fails with a
  StorageError of message \<open>m\<close>); with no script left, \<^verbatim>\<open>save\<close> succeeds.
\<close>

record World =
  courses :: "(string \<times> Course) list"
  tasks :: "(string \<times> Task) list"
  stored_courses :: "Course list option"
  stored_tasks :: "Task list option"
  faults :: "string option list"

definition saveTasks :: "World \<Rightarrow> (error + unit) \<times> World" where
  "saveTasks w =
     (let tasksArray = map_values (tasks w) in
      case faults w of
        Some m # fs \<Rightarrow> (Inl (StorageError m), w\<lparr>faults := fs\<rparr>)
      | None # fs \<Rightarrow> (Inr (), w\<lparr>stored_tasks := Some tasksArray, faults := fs\<rparr>)
      | [] \<Rightarrow> (Inr (), w\<lparr>stored_tasks := Some tasksArray\<rparr>))"

definition saveCourses :: "World \<Rightarrow> (error + unit) \<times> World" where
  "saveCourses w =
     (let coursesArray = map_values (courses w) in
      case faults w of
        Some m # fs \<Rightarrow> (Inl (StorageError m), w\<lparr>faults := fs\<rparr>)
      | None # fs \<Rightarrow> (Inr (), w\<lparr>stored_courses := Some coursesArray, faults := fs\<rparr>)
      | [] \<Rightarrow> (Inr (), w\<lparr>stored_courses := Some coursesArray\<rparr>))"

section \<open>TaskService (src/services/TaskService.ts)\<close>

text \<open>
  \<open>newId\<close> is what \<^verbatim>\<open>generateUUID()\<close> returns and \<open>now\<close> the time value of
  \<^verbatim>\<open>new Date()\<close> in the call.
\<close>

definition createTask ::
  "string \<Rightarrow> int \<Rightarrow> string \<Rightarrow> string \<Rightarrow> Date \<Rightarrow> World \<Rightarrow> (error + Task) \<times> World" where
  "createTask newId now courseId description deadline w =
     (case validateNonEmptyString description of
        None \<Rightarrow> (Inl (ValidationError ''Task description cannot be empty or whitespace only''), w)
      | Some validatedDescription \<Rightarrow>
          if \<not> isValidDate deadline
          then (Inl (ValidationError ''Deadline must be a valid date''), w)
          else (case validateNonEmptyString courseId of
             None \<Rightarrow> (Inl (ValidationError ''Course ID cannot be empty''), w)
           | Some validatedCourseId \<Rightarrow>
               let task = \<lparr>t_id = newId, t_courseId = validatedCourseId,
                            t_description = validatedDescription, t_deadline = deadline,
                            t_completed = False, t_completedAt = None,
                            t_createdAt = DateAt now\<rparr>;
                   w1 = w\<lparr>tasks := map_set (t_id task) task (tasks w)\<rparr>
               in (case saveTasks w1 of
                     (Inl e, w2) \<Rightarrow>
                       (Inl (ValidationError (''Failed to save task: '' @ message e)),
                        w2\<lparr>tasks := map_delete (t_id task) (tasks w2)\<rparr>)
                   | (Inr u, w2) \<Rightarrow> (Inr task, w2))))"

definition getTask :: "string \<Rightarrow> World \<Rightarrow> Task option" where
  "getTask i w = map_get i (tasks w)"

definition getAllTasks :: "World \<Rightarrow> Task list" where
  "getAllTasks w = map_values (tasks w)"

definition getTasksByCourse :: "string \<Rightarrow> World \<Rightarrow> Task list" where
  "getTasksByCourse courseId w = filter (\<lambda>task. t_courseId task = courseId) (map_values (tasks w))"

definition updateTask :: "string \<Rightarrow> TaskUpdates \<Rightarrow> World \<Rightarrow> (error + Task) \<times> World" where
  "updateTask i updates w =
     (case map_get i (tasks w) of
        None \<Rightarrow> (Inl (ValidationError (''Task with ID \"'' @ i @ ''\" not found'')), w)
      | Some existingTask \<Rightarrow>
         (case (case u_description updates of
                  None \<Rightarrow> Some (t_description existingTask)
                | Some d \<Rightarrow> validateNonEmptyString d) of
            None \<Rightarrow> (Inl (ValidationError ''Task description cannot be empty or whitespace only''), w)
          | Some validatedDescription \<Rightarrow>
             (case (case u_deadline updates of
                      None \<Rightarrow> Some (t_deadline existingTask)
                    | Some d \<Rightarrow> if isValidDate d then Some d else None) of
                None \<Rightarrow> (Inl (ValidationError ''Deadline must be a valid date''), w)
              | Some validatedDeadline \<Rightarrow>
                 (case (case u_courseId updates of
                          None \<Rightarrow> Some (t_courseId existingTask)
                        | Some c \<Rightarrow> validateNonEmptyString c) of
                    None \<Rightarrow> (Inl (ValidationError ''Course ID cannot be empty''), w)
                  | Some validatedCourseId \<Rightarrow>
                      let updatedTask = existingTask\<lparr>
                            t_courseId := validatedCourseId,
                            t_description := validatedDescription,
                            t_deadline := validatedDeadline,
                            t_completed := (case u_completed updates of
                                              Some c \<Rightarrow> c | None \<Rightarrow> t_completed existingTask),
                            t_completedAt := (case u_completedAt updates of
                                              Some d \<Rightarrow> Some d
                                            | None \<Rightarrow> t_completedAt existingTask)\<rparr>;
                          w1 = w\<lparr>tasks := map_set i updatedTask (tasks w)\<rparr>
                      in (case saveTasks w1 of
                            (Inl e, w2) \<Rightarrow>
                              (Inl (ValidationError (''Failed to save task: '' @ message e)),
                               w2\<lparr>tasks := map_set i existingTask (tasks w2)\<rparr>)
                          | (Inr u, w2) \<Rightarrow> (Inr updatedTask, w2))))))"

definition deleteTask :: "string \<Rightarrow> World \<Rightarrow> (error + unit) \<times> World" where
  "deleteTask i w =
     (case map_get i (tasks w) of
        None \<Rightarrow> (Inl (NotFoundError (''Task with ID \"'' @ i @ ''\" not found'')), w)
      | Some existingTask \<Rightarrow>
          let w1 = w\<lparr>tasks := map_delete i (tasks w)\<rparr> in
          (case saveTasks w1 of
             (Inl e, w2) \<Rightarrow> (Inl e, w2\<lparr>tasks := map_set i existingTask (tasks w2)\<rparr>)
           | (Inr u, w2) \<Rightarrow> (Inr (), w2)))"

definition markComplete :: "int \<Rightarrow> string \<Rightarrow> World \<Rightarrow> (error + Task) \<times> World" where
  "markComplete now i w =
     (case map_get i (tasks w) of
        None \<Rightarrow> (Inl (NotFoundError (''Task with ID \"'' @ i @ ''\" not found'')), w)
      | Some existingTask \<Rightarrow>
          let updatedTask = existingTask\<lparr>t_completed := True, t_completedAt := Some (DateAt now)\<rparr>;
              w1 = w\<lparr>tasks := map_set i updatedTask (tasks w)\<rparr>
          in (case saveTasks w1 of
                (Inl e, w2) \<Rightarrow> (Inl e, w2\<lparr>tasks := map_set i existingTask (tasks w2)\<rparr>)
              | (Inr u, w2) \<Rightarrow> (Inr updatedTask, w2)))"

definition markIncomplete :: "string \<Rightarrow> World \<Rightarrow> (error + Task) \<times> World" where
  "markIncomplete i w =
     (case map_get i (tasks w) of
        None \<Rightarrow> (Inl (NotFoundError (''Task with ID \"'' @ i @ ''\" not found'')), w)
      | Some existingTask \<Rightarrow>
          let updatedTask = existingTask\<lparr>t_completed := False, t_completedAt := None\<rparr>;
              w1 = w\<lparr>tasks := map_set i updatedTask (tasks w)\<rparr>
          in (case saveTasks w1 of
                (Inl e, w2) \<Rightarrow> (Inl e, w2\<lparr>tasks := map_set i existingTask (tasks w2)\<rparr>)
              | (Inr u, w2) \<Rightarrow> (Inr updatedTask, w2)))"

section \<open>CourseService\<close>

text \<open>
  \<^verbatim>\<open>courseExists\<close> walks the values of the map and compares with the trimmed arguments.
\<close>

definition courseExists :: "string \<Rightarrow> string \<Rightarrow> World \<Rightarrow> bool" where
  "courseExists name department w =
     (let normalizedName = trim name; normalizedDepartment = trim department in
      list_ex (\<lambda>course. c_name course = normalizedName \<and> c_department course = normalizedDepartment)
        (map_values (courses w)))"

definition createCourse ::
  "string \<Rightarrow> int \<Rightarrow> string \<Rightarrow> string \<Rightarrow> World \<Rightarrow> (error + Course) \<times> World" where
  "createCourse newId now name department w =
     (case validateNonEmptyString name of
        None \<Rightarrow> (Inl (ValidationError ''Course name cannot be empty or whitespace only''), w)
      | Some validatedName \<Rightarrow>
         (case validateNonEmptyString department of
            None \<Rightarrow> (Inl (ValidationError ''Department cannot be empty or whitespace only''), w)
          | Some validatedDepartment \<Rightarrow>
              if courseExists validatedName validatedDepartment w
              then (Inl (ValidationError (''Course \"'' @ validatedName
                      @ ''\" already exists in department \"'' @ validatedDepartment @ ''\"'')), w)
              else
                let course = \<lparr>c_id = newId, c_name = validatedName,
                               c_department = validatedDepartment, c_createdAt = DateAt now\<rparr>;
                    w1 = w\<lparr>courses := map_set (c_id course) course (courses w)\<rparr>
                in (case saveCourses w1 of
                      (Inl e, w2) \<Rightarrow>
                        (Inl (ValidationError (''Failed to save course: '' @ message e)),
                         w2\<lparr>courses := map_delete (c_id course) (courses w2)\<rparr>)
                    | (Inr u, w2) \<Rightarrow> (Inr course, w2))))"

definition getCourse :: "string \<Rightarrow> World \<Rightarrow> Course option" where
  "getCourse i w = map_get i (courses w)"

definition getAllCourses :: "World \<Rightarrow> Course list" where
  "getAllCourses w = map_values (courses w)"

definition updateCourse :: "string \<Rightarrow> CourseUpdates \<Rightarrow> World \<Rightarrow> (error + Course) \<times> World" where
  "updateCourse i updates w =
     (case map_get i (courses w) of
        None \<Rightarrow> (Inl (ValidationError (''Course with ID \"'' @ i @ ''\" not found'')), w)
      | Some existingCourse \<Rightarrow>
         (case (case u_name updates of
                  None \<Rightarrow> Some (c_name existingCourse)
                | Some n \<Rightarrow> validateNonEmptyString n) of
            None \<Rightarrow> (Inl (ValidationError ''Course name cannot be empty or whitespace only''), w)
          | Some validatedName \<Rightarrow>
             (case (case u_department updates of
                      None \<Rightarrow> Some (c_department existingCourse)
                    | Some d \<Rightarrow> validateNonEmptyString d) of
                None \<Rightarrow> (Inl (ValidationError ''Department cannot be empty or whitespace only''), w)
              | Some validatedDepartment \<Rightarrow>
                  if (validatedName \<noteq> c_name existingCourse
                        \<or> validatedDepartment \<noteq> c_department existingCourse)
                      \<and> courseExists validatedName validatedDepartment w
                  then (Inl (ValidationError (''Course \"'' @ validatedName
                          @ ''\" already exists in department \"'' @ validatedDepartment @ ''\"'')), w)
                  else
                    let updatedCourse = existingCourse\<lparr>c_name := validatedName,
                                          c_department := validatedDepartment\<rparr>;
                        w1 = w\<lparr>courses := map_set i updatedCourse (courses w)\<rparr>
                    in (case saveCourses w1 of
                          (Inl e, w2) \<Rightarrow>
                            (Inl (ValidationError (''Failed to save course: '' @ message e)),
                             w2\<lparr>courses := map_set i existingCourse (courses w2)\<rparr>)
                        | (Inr u, w2) \<Rightarrow> (Inr updatedCourse, w2)))))"

definition deleteCourse :: "string \<Rightarrow> World \<Rightarrow> (error + unit) \<times> World" where
  "deleteCourse i w =
     (case map_get i (courses w) of
        None \<Rightarrow> (Inl (NotFoundError (''Course with ID \"'' @ i @ ''\" not found'')), w)
      | Some existingCourse \<Rightarrow>
          let w1 = w\<lparr>courses := map_delete i (courses w)\<rparr> in
          (case saveCourses w1 of
             (Inl e, w2) \<Rightarrow> (Inl e, w2\<lparr>courses := map_set i existingCourse (courses w2)\<rparr>)
           | (Inr u, w2) \<Rightarrow> (Inr (), w2)))"

text \<open>
  The task service is an optional collaborator of CourseService: \<open>hasTaskService\<close> says
  whether one was passed to the constructor (TrackerService always passes one).
\<close>

definition hasAssociatedTasks :: "bool \<Rightarrow> string \<Rightarrow> World \<Rightarrow> bool" where
  "hasAssociatedTasks hasTaskService i w =
     (if \<not> hasTaskService then False else length (getTasksByCourse i w) > 0)"

datatype DeletionStrategy = cascade | reassign

text \<open>The two loops of \<^verbatim>\<open>deleteCourseWithTasks\<close> over the associated tasks.\<close>

fun deleteAssociated :: "Task list \<Rightarrow> World \<Rightarrow> (error + unit) \<times> World" where
  "deleteAssociated [] w = (Inr (), w)"
| "deleteAssociated (task # rest) w =
     (case deleteTask (t_id task) w of
        (Inl e, w') \<Rightarrow>
          (Inl (Error (''Failed to delete task '' @ t_id task @ '': '' @ message e)), w')
      | (Inr u, w') \<Rightarrow> deleteAssociated rest w')"

fun reassignAssociated :: "string \<Rightarrow> Task list \<Rightarrow> World \<Rightarrow> (error + unit) \<times> World" where
  "reassignAssociated targetCourseId [] w = (Inr (), w)"
| "reassignAssociated targetCourseId (task # rest) w =
     (case updateTask (t_id task) (noUpdates\<lparr>u_courseId := Some targetCourseId\<rparr>) w of
        (Inl e, w') \<Rightarrow>
          (Inl (Error (''Failed to reassign task '' @ t_id task @ '': '' @ message e)), w')
      | (Inr u, w') \<Rightarrow> reassignAssociated targetCourseId rest w')"

text \<open>
  \<open>targetCourseId\<close> is optional: \<open>None\<close> is the argument left out. The test
  \<^verbatim>\<open>!targetCourseId\<close> also takes the empty string for a missing one.
\<close>

definition deleteCourseWithTasks ::
  "bool \<Rightarrow> string \<Rightarrow> DeletionStrategy \<Rightarrow> string option \<Rightarrow> World \<Rightarrow> (error + unit) \<times> World" where
  "deleteCourseWithTasks hasTaskService i strategy targetCourseId w =
     (case map_get i (courses w) of
        None \<Rightarrow> (Inl (NotFoundError (''Course with ID \"'' @ i @ ''\" not found'')), w)
      | Some existingCourse \<Rightarrow>
          if \<not> hasTaskService then deleteCourse i w
          else
            let associatedTasks = getTasksByCourse i w in
            (case strategy of
               cascade \<Rightarrow>
                 (case deleteAssociated associatedTasks w of
                    (Inl e, w') \<Rightarrow> (Inl e, w')
                  | (Inr u, w') \<Rightarrow> deleteCourse i w')
             | reassign \<Rightarrow>
                 (case targetCourseId of
                    None \<Rightarrow> (Inl (ValidationError
                               ''Target course ID is required for reassignment strategy''), w)
                  | Some target \<Rightarrow>
                      if target = [] then (Inl (ValidationError
                               ''Target course ID is required for reassignment strategy''), w)
                      else (case map_get target (courses w) of
                        None \<Rightarrow> (Inl (NotFoundError
                                   (''Target course with ID \"'' @ target @ ''\" not found'')), w)
                      | Some targetCourse \<Rightarrow>
                          if target = i
                          then (Inl (ValidationError
                                  ''Cannot reassign tasks to the course being deleted''), w)
                          else (case reassignAssociated target associatedTasks w of
                                  (Inl e, w') \<Rightarrow> (Inl e, w')
                                | (Inr u, w') \<Rightarrow> deleteCourse i w')))))"

section \<open>TrackerService\<close>

text \<open>
  The coordinator builds CourseService with the task service, and checks the course of a
  task before it delegates. Its operations carry the prefix \<open>tracker_\<close>.
\<close>

definition tracker_createTask ::
  "string \<Rightarrow> int \<Rightarrow> string \<Rightarrow> string \<Rightarrow> Date \<Rightarrow> World \<Rightarrow> (error + Task) \<times> World" where
  "tracker_createTask newId now courseId description deadline w =
     (case getCourse courseId w of
        None \<Rightarrow> (Inl (ValidationError (''Course with ID \"'' @ courseId @ ''\" not found'')), w)
      | Some course \<Rightarrow> createTask newId now courseId description deadline w)"

text \<open>\<^verbatim>\<open>if (updates.courseId)\<close>: the course is looked up for a non-empty string only.\<close>

definition tracker_updateTask ::
  "string \<Rightarrow> TaskUpdates \<Rightarrow> World \<Rightarrow> (error + Task) \<times> World" where
  "tracker_updateTask i updates w =
     (case (case u_courseId updates of
              None \<Rightarrow> None
            | Some c \<Rightarrow> if c = [] then None
                        else (case getCourse c w of None \<Rightarrow> Some c | Some course \<Rightarrow> None)) of
        Some c \<Rightarrow> (Inl (ValidationError (''Course with ID \"'' @ c @ ''\" not found'')), w)
      | None \<Rightarrow> updateTask i updates w)"

definition tracker_deleteCourse ::
  "string \<Rightarrow> DeletionStrategy option \<Rightarrow> string option \<Rightarrow> World \<Rightarrow> (error + unit) \<times> World" where
  "tracker_deleteCourse i strategy targetCourseId w =
     (let has = hasAssociatedTasks True i w in
      case strategy of
        Some s \<Rightarrow> if has then deleteCourseWithTasks True i s targetCourseId w
                  else deleteCourse i w
      | None \<Rightarrow> if has
                then (Inl (ValidationError ''Cannot delete course with associated tasks. Please specify a deletion strategy (cascade or reassign).''), w)
                else deleteCourse i w)"

section \<open>The Date arithmetic of the language\<close>

text \<open>
  The day and year functions of the language standard, on time values (milliseconds since
  1970-01-01) and day numbers. Months count from 0, and a week day is 0 for Sunday to 6
  for Saturday. The model takes every time value and every day number; the language has
  time values up to 8.64e15 in absolute value, so it covers the years -271820 to 275759.
\<close>

definition msPerDay :: int where
  "msPerDay = 86400000"

definition Day :: "int \<Rightarrow> int" where
  "Day t = t div msPerDay"

definition TimeWithinDay :: "int \<Rightarrow> int" where
  "TimeWithinDay t = t mod msPerDay"

definition DaysInYear :: "int \<Rightarrow> int" where
  "DaysInYear y =
     (if y mod 4 \<noteq> 0 then 365 else if y mod 100 \<noteq> 0 then 366
      else if y mod 400 \<noteq> 0 then 365 else 366)"

definition DayFromYear :: "int \<Rightarrow> int" where
  "DayFromYear y = 365 * (y - 1970) + (y - 1969) div 4 - (y - 1901) div 100 + (y - 1601) div 400"

text \<open>
  The year of a day is the largest \<open>y\<close> with \<open>DayFromYear y \<le> d\<close> (lemma
  \<open>YearFromDay_bounds\<close>): an estimate from the mean length of a year, corrected by one.
\<close>

definition YearFromDay :: "int \<Rightarrow> int" where
  "YearFromDay d =
     (let y = 1970 + (400 * d) div 146097 in
      if d < DayFromYear y then y - 1 else if DayFromYear (y + 1) \<le> d then y + 1 else y)"

definition InLeapYear :: "int \<Rightarrow> int" where
  "InLeapYear d = (if DaysInYear (YearFromDay d) = 366 then 1 else 0)"

definition DayWithinYear :: "int \<Rightarrow> int" where
  "DayWithinYear d = d - DayFromYear (YearFromDay d)"

definition MonthFromDay :: "int \<Rightarrow> int" where
  "MonthFromDay d =
     (let n = DayWithinYear d; l = InLeapYear d in
      if n < 31 then 0 else if n < 59 + l then 1 else if n < 90 + l then 2
      else if n < 120 + l then 3 else if n < 151 + l then 4 else if n < 181 + l then 5
      else if n < 212 + l then 6 else if n < 243 + l then 7 else if n < 273 + l then 8
      else if n < 304 + l then 9 else if n < 334 + l then 10 else 11)"

definition DateFromDay :: "int \<Rightarrow> int" where
  "DateFromDay d =
     (let n = DayWithinYear d; l = InLeapYear d; m = MonthFromDay d in
      if m = 0 then n + 1 else if m = 1 then n - 30 else if m = 2 then n - 58 - l
      else if m = 3 then n - 89 - l else if m = 4 then n - 119 - l
      else if m = 5 then n - 150 - l else if m = 6 then n - 180 - l
      else if m = 7 then n - 211 - l else if m = 8 then n - 242 - l
      else if m = 9 then n - 272 - l else if m = 10 then n - 303 - l else n - 333 - l)"

definition WeekDay :: "int \<Rightarrow> int" where
  "WeekDay t = (Day t + 4) mod 7"

text \<open>
  \<open>MakeDay year month date\<close>: the day number of the first of the month, plus
  \<open>date - 1\<close>; a month outside 0..11 carries into the year, and any date is taken.
\<close>

definition DaysBeforeMonth :: "int \<Rightarrow> int \<Rightarrow> int" where
  "DaysBeforeMonth l mn =
     (if mn = 0 then 0 else if mn = 1 then 31 else if mn = 2 then 59 + l
      else if mn = 3 then 90 + l else if mn = 4 then 120 + l else if mn = 5 then 151 + l
      else if mn = 6 then 181 + l else if mn = 7 then 212 + l else if mn = 8 then 243 + l
      else if mn = 9 then 273 + l else if mn = 10 then 304 + l else 334 + l)"

definition MakeDay :: "int \<Rightarrow> int \<Rightarrow> int \<Rightarrow> int" where
  "MakeDay year month date =
     (let ym = year + month div 12; mn = month mod 12 in
      DayFromYear ym + DaysBeforeMonth (if DaysInYear ym = 366 then 1 else 0) mn + date - 1)"

section \<open>The local time zone\<close>

text \<open>
  Local time is the time value plus the offset of the machine's zone, which changes at the
  transitions of the zone (daylight saving time, a change of the zone's rules). A zone is
  its first offset in milliseconds and its transitions in ascending order, each the time
  value of the transition and the offset from then on.

  \<open>offsetAtUTC\<close> is the offset in force at a time value. \<open>offsetAtLocal\<close> is the
  offset by which the language reads a local time: a local time that comes twice (the
  clock was set back) is the first of the two, and a local time that the clock skipped is
  read with the offset before the transition.
\<close>

record Zone =
  z_offset :: int
  z_transitions :: "(int \<times> int) list"

fun offsetAtUTC :: "int \<Rightarrow> (int \<times> int) list \<Rightarrow> int \<Rightarrow> int" where
  "offsetAtUTC cur [] t = cur"
| "offsetAtUTC cur (tr # rest) t =
     (if t < fst tr then cur else offsetAtUTC (snd tr) rest t)"

fun offsetAtLocal :: "int \<Rightarrow> (int \<times> int) list \<Rightarrow> int \<Rightarrow> int" where
  "offsetAtLocal cur [] t = cur"
| "offsetAtLocal cur (tr # rest) t =
     (if t < fst tr + max cur (snd tr) then cur else offsetAtLocal (snd tr) rest t)"

definition LocalTime :: "Zone \<Rightarrow> int \<Rightarrow> int" where
  "LocalTime z t = t + offsetAtUTC (z_offset z) (z_transitions z) t"

definition UTC :: "Zone \<Rightarrow> int \<Rightarrow> int" where
  "UTC z t = t - offsetAtLocal (z_offset z) (z_transitions z) t"

text \<open>
  \<^verbatim>\<open>Date.UTC(year, month, date)\<close> and \<^verbatim>\<open>new Date(year, month, date)\<close> take a year
  from 0 to 99 for a year of the twentieth century. The first is midnight of the day in
  UTC and the second is midnight of the day in local time. The getters without
  \<^verbatim>\<open>UTC\<close> in their names read the fields of the local time.
\<close>

definition fullYear :: "int \<Rightarrow> int" where
  "fullYear y = (if 0 \<le> y \<and> y \<le> 99 then 1900 + y else y)"

definition Date_UTC :: "int \<Rightarrow> int \<Rightarrow> int \<Rightarrow> int" where
  "Date_UTC year month date = MakeDay (fullYear year) month date * msPerDay"

definition new_Date :: "Zone \<Rightarrow> int \<Rightarrow> int \<Rightarrow> int \<Rightarrow> int" where
  "new_Date z year month date = UTC z (MakeDay (fullYear year) month date * msPerDay)"

definition getUTCFullYear :: "int \<Rightarrow> int" where
  "getUTCFullYear t = YearFromDay (Day t)"

definition getUTCMonth :: "int \<Rightarrow> int" where
  "getUTCMonth t = MonthFromDay (Day t)"

definition getUTCDate :: "int \<Rightarrow> int" where
  "getUTCDate t = DateFromDay (Day t)"

definition getUTCDay :: "int \<Rightarrow> int" where
  "getUTCDay t = WeekDay t"

definition getFullYear :: "Zone \<Rightarrow> int \<Rightarrow> int" where
  "getFullYear z t = YearFromDay (Day (LocalTime z t))"

definition getMonth :: "Zone \<Rightarrow> int \<Rightarrow> int" where
  "getMonth z t = MonthFromDay (Day (LocalTime z t))"

definition getDate :: "Zone \<Rightarrow> int \<Rightarrow> int" where
  "getDate z t = DateFromDay (Day (LocalTime z t))"

definition getDay :: "Zone \<Rightarrow> int \<Rightarrow> int" where
  "getDay z t = WeekDay (LocalTime z t)"

definition setUTCDate :: "int \<Rightarrow> int \<Rightarrow> int" where
  "setUTCDate t dt =
     MakeDay (YearFromDay (Day t)) (MonthFromDay (Day t)) dt * msPerDay + TimeWithinDay t"

section \<open>ISO week calculations (src/utils/weekCalculations.ts)\<close>

text \<open>
  \<^verbatim>\<open>Math.ceil(x / 7)\<close> for an integer \<open>x\<close>: the quotient of the doubles is within
  rounding of the exact one, which is an integer or at least 1/7 away from one, so the
  ceiling is the exact ceiling.
\<close>

definition ceil_div7 :: "int \<Rightarrow> int" where
  "ceil_div7 x = - ((- x) div 7)"

text \<open>
  \<^verbatim>\<open>getWeekNumber\<close>. For an invalid date every field is NaN, so the result is the
  pair of NaN: \<open>None\<close>. The two dates subtracted are both at midnight, so the quotient
  by 86400000 is exact.
\<close>

fun getWeekNumber :: "Zone \<Rightarrow> Date \<Rightarrow> (int \<times> int) option" where
  "getWeekNumber z InvalidDate = None"
| "getWeekNumber z (DateAt date) =
     (let d = Date_UTC (getFullYear z date) (getMonth z date) (getDate z date);
          dayNum = (if getUTCDay d = 0 then 7 else getUTCDay d);
          d = setUTCDate d (getUTCDate d + 4 - dayNum);
          yearStart = Date_UTC (getUTCFullYear d) 0 1;
          weekNumber = ceil_div7 ((d - yearStart) div 86400000 + 1)
      in Some (weekNumber, getUTCFullYear d))"

definition getWeekBounds :: "Zone \<Rightarrow> int \<Rightarrow> int \<Rightarrow> Date \<times> Date" where
  "getWeekBounds z weekNumber year =
     (let jan4 = Date_UTC year 0 4;
          jan4Day = (if getUTCDay jan4 = 0 then 7 else getUTCDay jan4);
          week1Monday = setUTCDate jan4 (getUTCDate jan4 - jan4Day + 1);
          startDate = setUTCDate week1Monday (getUTCDate week1Monday + (weekNumber - 1) * 7);
          endDate = setUTCDate startDate (getUTCDate startDate + 6)
      in (DateAt (new_Date z (getUTCFullYear startDate) (getUTCMonth startDate)
                    (getUTCDate startDate)),
          DateAt (new_Date z (getUTCFullYear endDate) (getUTCMonth endDate)
                    (getUTCDate endDate))))"


section \<open>TaskService: the queries by week and by deadline\<close>


text \<open>\<open>a < b\<close> on dates: a comparison with an invalid date (NaN) is false.\<close>

fun date_less :: "Date \<Rightarrow> Date \<Rightarrow> bool" where
  "date_less (DateAt a) (DateAt b) = (a < b)"
| "date_less _ _ = False"

definition getOverdueTasks :: "int \<Rightarrow> World \<Rightarrow> Task list" where
  "getOverdueTasks now w =
     filter (\<lambda>task. \<not> t_completed task \<and> date_less (t_deadline task) (DateAt now))
       (map_values (tasks w))"

section \<open>Numbers of the language\<close>







section \<open>StatisticsService (src/services/StatisticsService.ts)\<close>







section \<open>Example states and the predicates of the properties\<close>

text \<open>
  \<open>emptyWorld\<close> is what the constructors build over an empty storage. \<open>world1\<close> is the
  state after one course and one task were created in it (lemma \<open>world1_reachable\<close>), and
  \<open>world1_failing\<close> is \<open>world1\<close> with a storage whose next \<^verbatim>\<open>save\<close> fails.
\<close>

definition emptyWorld :: World where
  "emptyWorld = \<lparr>courses = [], tasks = [], stored_courses = None, stored_tasks = None, faults = []\<rparr>"

definition course1 :: Course where
  "course1 = \<lparr>c_id = ''c1'', c_name = ''Algebra'', c_department = ''Math'', c_createdAt = DateAt 0\<rparr>"

definition task1 :: Task where
  "task1 = \<lparr>t_id = ''t1'', t_courseId = ''c1'', t_description = ''Essay'',
     t_deadline = DateAt 1709510400000, t_completed = False, t_completedAt = None,
     t_createdAt = DateAt 0\<rparr>"

definition world1 :: World where
  "world1 = \<lparr>courses = [(''c1'', course1)], tasks = [(''t1'', task1)],
     stored_courses = Some [course1], stored_tasks = Some [task1], faults = []\<rparr>"

definition world1_failing :: World where
  "world1_failing = world1\<lparr>faults := [Some ''quota'']\<rparr>"

text \<open>
  Two maps hold the same entries: the same mapping from keys to values, and the same
  entries with the same multiplicities (the order of insertion apart).
\<close>

definition same_entries :: "('k \<times> 'v) list \<Rightarrow> ('k \<times> 'v) list \<Rightarrow> bool" where
  "same_entries m m' = (map_of m' = map_of m \<and> mset m' = mset m)"

text \<open>
  An operation \<open>rolled_back\<close>: it returned an error value, and both in-memory maps hold
  the entries they held before the call.
\<close>

definition rolled_back :: "World \<Rightarrow> (error + 'a) \<times> World \<Rightarrow> bool" where
  "rolled_back w r = (isl (fst r) \<and> same_entries (tasks w) (tasks (snd r))
      \<and> same_entries (courses w) (courses (snd r)))"

text \<open>The completion invariant of a task, and of every task of the collection.\<close>

definition completedAt_iff_completed :: "Task \<Rightarrow> bool" where
  "completedAt_iff_completed t = ((t_completedAt t \<noteq> None) = t_completed t)"

definition all_consistent :: "World \<Rightarrow> bool" where
  "all_consistent w = list_all completedAt_iff_completed (getAllTasks w)"

text \<open>
  The invariants of the two maps. Every key of \<open>tasks\<close> is the id of its task and every
  key of \<open>courses\<close> the id of its course: the constructors and every \<^verbatim>\<open>set\<close> of the
  services key an entry by its id. Course ids carry no surrounding white space: they come
  from \<^verbatim>\<open>generateUUID\<close>.
\<close>

definition wf_tasks :: "World \<Rightarrow> bool" where
  "wf_tasks w = (distinct (map fst (tasks w)) \<and> list_all (\<lambda>p. fst p = t_id (snd p)) (tasks w))"

definition wf_courses :: "World \<Rightarrow> bool" where
  "wf_courses w = (distinct (map fst (courses w))
     \<and> list_all (\<lambda>p. fst p = c_id (snd p) \<and> trim (fst p) = fst p) (courses w))"

text \<open>What the reassignment loop does to an entry whose key is in \<open>K\<close>.\<close>

definition repoint :: "string \<Rightarrow> string set \<Rightarrow> (string \<times> Task) \<Rightarrow> (string \<times> Task)" where
  "repoint c K p = (if fst p \<in> K then (fst p, (snd p)\<lparr>t_courseId := c\<rparr>) else p)"

text \<open>\<open>world2\<close>: two courses; two tasks of the first course and one of the second.\<close>

definition course2 :: Course where
  "course2 = \<lparr>c_id = ''c2'', c_name = ''Logic'', c_department = ''Math'', c_createdAt = DateAt 1\<rparr>"

definition world2 :: World where
  "world2 = \<lparr>courses = [(''c1'', course1), (''c2'', course2)],
     tasks = [(''t1'', task1), (''t2'', task1\<lparr>t_id := ''t2'', t_courseId := ''c2''\<rparr>),
              (''t3'', task1\<lparr>t_id := ''t3''\<rparr>)],
     stored_courses = None, stored_tasks = None, faults = []\<rparr>"

text \<open>
  The ISO number of the week day of a day number (Monday 1 to Sunday 7), the day number of
  the Monday of the week of 4 January, and of the Monday of week \<open>w\<close>.
\<close>

definition isoDay :: "int \<Rightarrow> int" where
  "isoDay n = (if (n + 4) mod 7 = 0 then 7 else (n + 4) mod 7)"

definition week1Monday :: "int \<Rightarrow> int" where
  "week1Monday y = DayFromYear y + 3 - isoDay (DayFromYear y + 3) + 1"

definition weekStart :: "int \<Rightarrow> int \<Rightarrow> int" where
  "weekStart w y = week1Monday y + 7 * (w - 1)"

text \<open>
  The ISO weeks of a year: 53 when 1 January is a Thursday, or a Wednesday in a leap year,
  and 52 otherwise (lemma \<open>getWeekNumber_valid\<close>: these are the weeks that
  \<^verbatim>\<open>getWeekNumber\<close> returns). A pair \<open>(weekNumber, year)\<close> is valid when the week
  is one of the year's, inside the range of time values, and the Date functions take its
  years as they are written: neither \<open>year\<close> nor the year of the first or last day of
  the week is from 0 to 99, which \<^verbatim>\<open>Date.UTC\<close> and \<^verbatim>\<open>new Date\<close> read as 1900 to
  1999. That leaves out the years 0 to 99 and week 52 of the year -1, whose Saturday and
  Sunday are in the year 0 (lemma \<open>valid_week_years\<close>).
\<close>

definition weeksInYear :: "int \<Rightarrow> int" where
  "weeksInYear y =
     (let jan1 = (DayFromYear y + 4) mod 7 in
      if jan1 = 4 \<or> (DaysInYear y = 366 \<and> jan1 = 3) then 53 else 52)"

definition twoDigitYear :: "int \<Rightarrow> bool" where
  "twoDigitYear y = (0 \<le> y \<and> y \<le> 99)"

definition valid_week :: "int \<Rightarrow> int \<Rightarrow> bool" where
  "valid_week weekNumber year =
     (1 \<le> weekNumber \<and> weekNumber \<le> weeksInYear year
      \<and> \<not> twoDigitYear year
      \<and> \<not> twoDigitYear (YearFromDay (weekStart weekNumber year))
      \<and> \<not> twoDigitYear (YearFromDay (weekStart weekNumber year + 6))
      \<and> -271820 \<le> year \<and> year \<le> 275759)"


text \<open>
  A zone is steady from the time value \<open>a\<close> to the time value \<open>b\<close> at the offset
  \<open>c\<close> when each of its transitions comes before \<open>a\<close> or after \<open>b\<close>, on the clock
  of UTC and on the local clock alike, and \<open>c\<close> is the offset in between. It is steady
  in a week when it is so from the local midnight that begins the Monday to the local
  midnight that begins the Sunday: no transition of the zone falls between the two.
\<close>

fun steady :: "int \<Rightarrow> (int \<times> int) list \<Rightarrow> int \<Rightarrow> int \<Rightarrow> int \<Rightarrow> bool" where
  "steady cur [] a b c = (cur = c)"
| "steady cur (tr # rest) a b c =
     (if b < fst tr \<and> b + c < fst tr + max cur (snd tr) then cur = c
      else fst tr \<le> a \<and> fst tr + max cur (snd tr) \<le> a + c \<and> steady (snd tr) rest a b c)"

definition steady_week :: "Zone \<Rightarrow> int \<Rightarrow> int \<Rightarrow> bool" where
  "steady_week z weekNumber year =
     (let monday = weekStart weekNumber year * msPerDay;
          c = offsetAtLocal (z_offset z) (z_transitions z) monday
      in steady (z_offset z) (z_transitions z) (monday - c) (monday + 6 * msPerDay - c) c)"

text \<open>
  Three zones: UTC; New York with its two transitions of 2024 (10 March 07:00 UTC to
  daylight time, 3 November 06:00 UTC back), both on a Sunday at 2 o'clock; and Santiago
  with its two transitions of 2016 (15 May 03:00 UTC back to standard time, 14 August
  04:00 UTC to daylight time), both at the midnight that begins a Sunday.
\<close>

definition utcZone :: Zone where
  "utcZone = \<lparr>z_offset = 0, z_transitions = []\<rparr>"

definition newYork :: Zone where
  "newYork = \<lparr>z_offset = - 18000000,
     z_transitions = [(1710054000000, - 14400000), (1730613600000, - 18000000)]\<rparr>"

definition santiago :: Zone where
  "santiago = \<lparr>z_offset = - 10800000,
     z_transitions = [(1463281200000, - 14400000), (1471147200000, - 10800000)]\<rparr>"




section \<open>Facts about the Map operations, trim and the storage\<close>

lemma key_in_keys: "(k, v) \<in> set m \<Longrightarrow> k \<in> fst ` set m"
  by force

lemma map_of_Some_key: "map_of m k = Some v \<Longrightarrow> k \<in> fst ` set m"
  by (force dest: map_of_SomeD)

lemma map_of_replace:
  "map_of (map (\<lambda>p. if fst p = k then (k, v) else p) m) x
     = (if x = k then (if k \<in> fst ` set m then Some v else None) else map_of m x)"
  by (induction m) (auto dest: key_in_keys)

lemma map_of_map_set: "map_of (map_set k v m) = (map_of m)(k \<mapsto> v)"
proof (cases "k \<in> fst ` set m")
  case True
  then show ?thesis by (auto simp: map_set_def fun_eq_iff map_of_replace)
next
  case False
  then have "map_of m k = None" by (simp add: map_of_eq_None_iff)
  with False show ?thesis by (auto simp: map_set_def fun_eq_iff map_add_def split: option.splits)
qed

lemma map_of_map_delete: "map_of (map_delete k m) = (map_of m)(k := None)"
  by (induction m) (auto simp: map_delete_def fun_eq_iff)

lemma map_delete_map_set_fresh: "k \<notin> fst ` set m \<Longrightarrow> map_delete k (map_set k v m) = m"
  by (auto simp: map_set_def map_delete_def filter_id_conv)

lemma map_fst_replace: "map fst (map (\<lambda>p. if fst p = k then (k, v) else p) m) = map fst m"
  by (induction m) simp_all

lemma keys_map_set: "fst ` set (map_set k v m) = insert k (fst ` set m)"
proof -
  have "fst ` set (map_set k v m) = set (map fst (map_set k v m))" by simp
  also have "\<dots> = insert k (fst ` set m)"
    unfolding map_set_def by (simp only: map_fst_replace split: if_splits) auto
  finally show ?thesis .
qed

lemma distinct_map_set: "distinct (map fst m) \<Longrightarrow> distinct (map fst (map_set k v m))"
  unfolding map_set_def by (simp only: map_fst_replace split: if_splits) simp

lemma distinct_map_delete: "distinct (map fst m) \<Longrightarrow> distinct (map fst (map_delete k m))"
  by (simp add: map_delete_def distinct_map_filter)

lemma replace_absent:
  "k \<notin> fst ` set m \<Longrightarrow> map (\<lambda>p. if fst p = k then (k, v) else p) m = m"
  by (induction m) auto

lemma replace_twice:
  "distinct (map fst m) \<Longrightarrow> (k, v) \<in> set m \<Longrightarrow>
   map (\<lambda>p. if fst p = k then (k, v) else p) (map (\<lambda>p. if fst p = k then (k, v') else p) m) = m"
proof (induction m)
  case Nil
  then show ?case by simp
next
  case (Cons p m)
  show ?case
  proof (cases "fst p = k")
    case True
    with Cons.prems have nk: "k \<notin> fst ` set m" and bv: "p = (k, v)"
      by (auto dest: key_in_keys)
    from nk show ?thesis using bv by (simp add: replace_absent)
  next
    case False
    with Cons show ?thesis by auto
  qed
qed

lemma map_set_restore_list:
  assumes "distinct (map fst m)" "map_of m k = Some v"
  shows "map_set k v (map_set k v' m) = m"
proof -
  from assms(2) have kin: "k \<in> fst ` set m" by (rule map_of_Some_key)
  have "(k, v) \<in> set m" using assms(2) by (rule map_of_SomeD)
  with assms(1) have "map (\<lambda>p. if fst p = k then (k, v) else p)
          (map (\<lambda>p. if fst p = k then (k, v') else p) m) = m"
    by (rule replace_twice)
  moreover have "k \<in> fst ` set (map_set k v' m)" by (simp add: keys_map_set)
  ultimately show ?thesis using kin by (simp add: map_set_def)
qed

lemma mset_restore_delete:
  assumes "distinct (map fst m)" "map_of m k = Some v"
  shows "mset (map_set k v (map_delete k m)) = mset m"
proof -
  have nk: "k \<notin> fst ` set (map_delete k m)" by (auto simp: map_delete_def)
  have kv: "(k, v) \<in> set m" using assms(2) by (rule map_of_SomeD)
  have "filter (\<lambda>p. fst p = k) m = [(k, v)]"
    using assms(1) kv
  proof (induction m)
    case Nil
    then show ?case by simp
  next
    case (Cons p m)
    then show ?case
      by (cases p) (auto simp: filter_empty_conv dest: key_in_keys)
  qed
  then have "mset m = mset (map_delete k m) + {#(k, v)#}"
    using multiset_partition[of "mset m" "\<lambda>p. fst p = k"]
    by (simp add: map_delete_def flip: mset_filter)
  with nk show ?thesis by (simp add: map_set_def)
qed

lemma hd_trim: "trim s \<noteq> [] \<Longrightarrow> \<not> is_ws (hd (trim s))"
  by (metis dropWhile.simps(1) dropWhile_eq_Nil_conv dropWhile_last
    hd_dropWhile last_rev rev.simps(1) rev_rev_ident trim_def hd_rev)

lemma last_trim: "trim s \<noteq> [] \<Longrightarrow> \<not> is_ws (last (trim s))"
  by (metis  hd_dropWhile hd_rev rev_is_Nil_conv rev_rev_ident trim_def last_rev)

lemma trim_idem: "trim (trim s) = trim s"
proof (cases "trim s = []")
  case True
  have "trim [] = []" by (simp add: trim_def)
  with True show ?thesis by simp
next
  case False
  then have a: "dropWhile is_ws (trim s) = trim s"
    by (simp add: dropWhile_eq_self_iff hd_trim)
  from False have "\<not> is_ws (hd (rev (trim s)))"
    by (simp add: hd_rev last_trim)
  then have b: "dropWhile is_ws (rev (trim s)) = rev (trim s)"
    by (simp add: dropWhile_eq_self_iff)
  show ?thesis
    unfolding trim_def[of "trim s"] by (simp only: a b rev_rev_ident)
qed

lemma validate_Some_trim: "validateNonEmptyString v = Some x \<Longrightarrow> x = trim v \<and> x \<noteq> []"
  by (auto simp: validateNonEmptyString_def Let_def split: if_splits)

lemma validate_None_trim: "validateNonEmptyString v = None \<Longrightarrow> trim v = []"
  by (auto simp: validateNonEmptyString_def Let_def split: if_splits)

lemma saveTasks_tasks: "saveTasks w = (r, w') \<Longrightarrow> tasks w' = tasks w \<and> courses w' = courses w"
  by (auto simp: saveTasks_def Let_def split: list.splits option.splits)

lemma saveCourses_tasks: "saveCourses w = (r, w') \<Longrightarrow> tasks w' = tasks w \<and> courses w' = courses w"
  by (auto simp: saveCourses_def Let_def split: list.splits option.splits)

lemma saveTasks_cases:
  "(\<exists>m w'. saveTasks w = (Inl (StorageError m), w') \<and> tasks w' = tasks w \<and> courses w' = courses w)
   \<or> (\<exists>w'. saveTasks w = (Inr (), w') \<and> tasks w' = tasks w \<and> courses w' = courses w)"
  by (auto simp: saveTasks_def Let_def split: list.splits option.splits)

lemma saveCourses_cases:
  "(\<exists>m w'. saveCourses w = (Inl (StorageError m), w') \<and> tasks w' = tasks w \<and> courses w' = courses w)
   \<or> (\<exists>w'. saveCourses w = (Inr (), w') \<and> tasks w' = tasks w \<and> courses w' = courses w)"
  by (auto simp: saveCourses_def Let_def split: list.splits option.splits)

lemma saveTasks_result:
  "\<exists>r w'. saveTasks w = (r, w') \<and> tasks w' = tasks w \<and> courses w' = courses w"
  by (auto simp: saveTasks_def Let_def split: list.splits option.splits)

lemma same_entries_refl: "same_entries m m"
  by (simp add: same_entries_def)

lemma same_entries_set_set:
  "distinct (map fst m) \<Longrightarrow> map_of m k = Some v \<Longrightarrow> same_entries m (map_set k v (map_set k v' m))"
  by (simp add: map_set_restore_list same_entries_refl)

lemma same_entries_set_delete:
  "distinct (map fst m) \<Longrightarrow> map_of m k = Some v \<Longrightarrow> same_entries m (map_set k v (map_delete k m))"
  by (auto simp: same_entries_def mset_restore_delete map_of_map_set map_of_map_delete fun_eq_iff)

lemma saveTasks_fail: "faults w = Some m # fs \<Longrightarrow> saveTasks w = (Inl (StorageError m), w\<lparr>faults := fs\<rparr>)"
  by (simp add: saveTasks_def)

lemma saveCourses_fail: "faults w = Some m # fs \<Longrightarrow> saveCourses w = (Inl (StorageError m), w\<lparr>faults := fs\<rparr>)"
  by (simp add: saveCourses_def)

lemma list_all_map_set:
  "P v \<Longrightarrow> list_all P (map_values m) \<Longrightarrow> list_all P (map_values (map_set k v m))"
  by (auto simp: map_set_def map_values_def list_all_iff)

lemma list_all_map_delete:
  "list_all P (map_values m) \<Longrightarrow> list_all P (map_values (map_delete k m))"
  by (auto simp: map_delete_def map_values_def list_all_iff)

lemma list_all_map_get:
  "list_all P (map_values m) \<Longrightarrow> map_get k m = Some v \<Longrightarrow> P v"
  by (force simp: map_get_def map_values_def list_all_iff dest: map_of_SomeD)

lemma world1_reachable:
  "snd (createTask ''t1'' 0 ''c1'' ''Essay'' (DateAt 1709510400000)
     (snd (createCourse ''c1'' 0 ''Algebra'' ''Math'' emptyWorld))) = world1"
  by (simp add: createTask_def createCourse_def emptyWorld_def world1_def task1_def course1_def
      validateNonEmptyString_def trim_def is_ws_def courseExists_def map_values_def map_set_def
      saveTasks_def saveCourses_def Let_def)

section \<open>Facts about the Date arithmetic\<close>

lemma div_succ:
  fixes x n :: int
  assumes "0 < n"
  shows "(x + 1) div n = x div n + (if (x + 1) mod n = 0 then 1 else 0)"
proof (cases "x mod n + 1 = n")
  case True
  have "x + 1 = n * (x div n + 1) + 0" using True
    by (metis add.commute add.left_commute add_cancel_left_right mult.commute
        mult_div_mod_eq distrib_left mult.right_neutral)
  then have "(x + 1) div n = x div n + 1 \<and> (x + 1) mod n = 0"
    using assms by (metis int_div_pos_eq int_mod_pos_eq order_refl)
  then show ?thesis by simp
next
  case False
  have r: "0 \<le> x mod n + 1" "x mod n + 1 < n"
    using assms False pos_mod_bound[of n x] pos_mod_sign[of n x] by linarith+
  have "x + 1 = n * (x div n) + (x mod n + 1)" by simp
  then have e: "(x + 1) div n = x div n \<and> (x + 1) mod n = x mod n + 1"
    using r by (metis int_div_pos_eq int_mod_pos_eq)
  have "x mod n + 1 \<noteq> 0" using assms pos_mod_sign[of n x] by linarith
  with e show ?thesis by simp
qed


lemma DaysInYear_range: "DaysInYear y = 365 \<or> DaysInYear y = 366"
  by (simp add: DaysInYear_def)

lemma scale_div:
  fixes x n k :: int
  shows "k * (n * (x div n)) = k * x - k * (x mod n)"
  by (simp add: algebra_simps flip: minus_mod_eq_mult_div)

lemma DayFromYear_scaled:
  "146097 * y - 287811596 \<le> 400 * DayFromYear y \<and> 400 * DayFromYear y \<le> 146097 * y - 287810501"
proof -
  define a where "a = (y - 1969) mod 4"
  define b where "b = (y - 1901) mod 100"
  define c where "c = (y - 1601) mod 400"
  have A: "400 * ((y - 1969) div 4) = 100 * y - 100 * a - 196900"
    using scale_div[of 100 4 "y - 1969"] by (simp add: a_def)
  have B: "400 * ((y - 1901) div 100) = 4 * y - 4 * b - 7604"
    using scale_div[of 4 100 "y - 1901"] by (simp add: b_def)
  have C: "400 * ((y - 1601) div 400) = y - c - 1601"
    using scale_div[of 1 400 "y - 1601"] by (simp add: c_def)
  have r: "0 \<le> a" "a \<le> 3" "0 \<le> b" "b \<le> 99" "0 \<le> c" "c \<le> 399"
    using pos_mod_bound[of 4 "y - 1969"] pos_mod_bound[of 100 "y - 1901"]
      pos_mod_bound[of 400 "y - 1601"]
    by (simp_all add: a_def b_def c_def)
  have d: "400 * DayFromYear y = 146000 * y - 287620000 + 400 * ((y - 1969) div 4)
      - 400 * ((y - 1901) div 100) + 400 * ((y - 1601) div 400)"
    by (simp add: DayFromYear_def)
  show ?thesis unfolding d A B C using r by simp
qed

lemma mod_shift:
  fixes y n k :: int
  shows "(y - n * k) mod n = y mod n"
proof -
  have "y - n * k = y + n * (- k)" by simp
  then show ?thesis by (simp only: mod_mult_self2)
qed

lemma div_step:
  fixes y n k :: int
  assumes "0 < n"
  shows "(y + 1 - (n * k + 1)) div n = (y - (n * k + 1)) div n + (if y mod n = 0 then 1 else 0)"
proof -
  have e: "y - (n * k + 1) + 1 = y - n * k" "y + 1 - (n * k + 1) = y - n * k" by simp_all
  from div_succ[OF assms, of "y - (n * k + 1)"] show ?thesis
    by (simp only: e mod_shift)
qed

lemma DayFromYear_Suc: "DayFromYear (y + 1) = DayFromYear y + DaysInYear y"
proof -
  have a: "(y + 1 - 1969) div 4 = (y - 1969) div 4 + (if y mod 4 = 0 then 1 else 0)"
    using div_step[of 4 y 492] by simp
  have b: "(y + 1 - 1901) div 100 = (y - 1901) div 100 + (if y mod 100 = 0 then 1 else 0)"
    using div_step[of 100 y 19] by simp
  have c: "(y + 1 - 1601) div 400 = (y - 1601) div 400 + (if y mod 400 = 0 then 1 else 0)"
    using div_step[of 400 y 4] by simp
  have d: "y mod 400 = 0 \<Longrightarrow> y mod 100 = 0" "y mod 100 = 0 \<Longrightarrow> y mod 4 = 0"
    using mod_mod_cancel[of 100 400 y] mod_mod_cancel[of 4 100 y] by simp_all
  have e: "(y + 1 - 1970) = (y - 1970) + 1" by simp
  have "DayFromYear (y + 1) = DayFromYear y + 365 + (if y mod 4 = 0 then 1 else 0)
      - (if y mod 100 = 0 then 1 else 0) + (if y mod 400 = 0 then 1 else 0)"
    unfolding DayFromYear_def a b c e by (simp only: distrib_left)
  moreover have "DaysInYear y = 365 + (if y mod 4 = 0 then 1 else 0)
      - (if y mod 100 = 0 then 1 else 0) + (if y mod 400 = 0 then 1 else 0)"
    using d by (simp add: DaysInYear_def)
  ultimately show ?thesis by simp
qed

lemma DayFromYear_grows:
  "y \<le> y' \<Longrightarrow> DayFromYear y + 365 * y' - 365 * y \<le> DayFromYear y'"
proof (induction y' rule: int_ge_induct)
  case base
  then show ?case by simp
next
  case (step i)
  have "DayFromYear (i + 1) = DayFromYear i + DaysInYear i" by (rule DayFromYear_Suc)
  moreover have "365 \<le> DaysInYear i" using DaysInYear_range[of i] by auto
  ultimately show ?case using step by (simp add: algebra_simps)
qed

lemma DayFromYear_less:
  assumes "y < y'"
  shows "DayFromYear y < DayFromYear y'"
proof -
  from assms have "y \<le> y'" by simp
  from DayFromYear_grows[OF this] assms show ?thesis by linarith
qed

lemma DayFromYear_le:
  assumes "y \<le> y'"
  shows "DayFromYear y \<le> DayFromYear y'"
  using DayFromYear_grows[OF assms] assms by linarith

lemma YearFromDay_bounds:
  "DayFromYear (YearFromDay d) \<le> d \<and> d < DayFromYear (YearFromDay d + 1)"
proof -
  define y0 where "y0 = 1970 + (400 * d) div 146097"
  define K where "K = 146097 * y0 - 287811090"
  have K: "K = 146097 * ((400 * d) div 146097)" by (simp add: K_def y0_def)
  have k1: "K \<le> 400 * d" unfolding K
    using div_mult_mod_eq[of "400 * d" 146097] pos_mod_sign[of 146097 "400 * d"] by linarith
  have k2: "400 * d < K + 146097" unfolding K
    using div_mult_mod_eq[of "400 * d" 146097] pos_mod_bound[of 146097 "400 * d"] by linarith
  have e1: "146097 * (y0 - 1) = K + 287811090 - 146097" by (simp add: K_def algebra_simps)
  have e2: "146097 * (y0 + 2) = K + 287811090 + 292194" by (simp add: K_def algebra_simps)
  have lo: "DayFromYear (y0 - 1) \<le> d"
    using DayFromYear_scaled[of "y0 - 1"] k1 unfolding e1 by linarith
  have hi: "d < DayFromYear (y0 + 2)"
    using DayFromYear_scaled[of "y0 + 2"] k2 unfolding e2 by linarith
  have s: "y0 - 1 + 1 = y0" "y0 + 1 + 1 = y0 + 2" by simp_all
  show ?thesis
    unfolding YearFromDay_def y0_def[symmetric] Let_def using lo hi by (auto simp: s)
qed

lemma YearFromDay_unique:
  assumes "DayFromYear y \<le> d" and "d < DayFromYear (y + 1)"
  shows "YearFromDay d = y"
proof (rule ccontr)
  assume ne: "YearFromDay d \<noteq> y"
  from YearFromDay_bounds[of d] have b: "DayFromYear (YearFromDay d) \<le> d"
    "d < DayFromYear (YearFromDay d + 1)" by simp_all
  show False
  proof (cases "YearFromDay d < y")
    case True
    then have "DayFromYear (YearFromDay d + 1) \<le> DayFromYear y" by (intro DayFromYear_le) simp
    with b assms show False by linarith
  next
    case False
    with ne have "DayFromYear (y + 1) \<le> DayFromYear (YearFromDay d)" by (intro DayFromYear_le) simp
    with b assms show False by linarith
  qed
qed

lemma DayWithinYear_range: "0 \<le> DayWithinYear d \<and> DayWithinYear d < DaysInYear (YearFromDay d)"
  using YearFromDay_bounds[of d] DayFromYear_Suc[of "YearFromDay d"]
  by (simp add: DayWithinYear_def)

lemma MonthFromDay_range: "0 \<le> MonthFromDay d \<and> MonthFromDay d \<le> 11"
  by (simp add: MonthFromDay_def Let_def)

lemma MakeDay_roundtrip:
  "MakeDay (YearFromDay d) (MonthFromDay d) (DateFromDay d + k) = d + k"
proof -
  define n where "n = DayWithinYear d"
  define l where "l = InLeapYear d"
  have l: "(if DaysInYear (YearFromDay d) = 366 then 1 else 0) = l"
    by (simp add: l_def InLeapYear_def)
  have m: "MonthFromDay d div 12 = 0" "MonthFromDay d mod 12 = MonthFromDay d"
    using MonthFromDay_range[of d] by simp_all
  have "DaysBeforeMonth l (MonthFromDay d) + DateFromDay d - 1 = n"
    unfolding DaysBeforeMonth_def DateFromDay_def MonthFromDay_def Let_def
      n_def[symmetric] l_def[symmetric]
    by simp
  then have "DayFromYear (YearFromDay d) + DaysBeforeMonth l (MonthFromDay d) + (DateFromDay d + k) - 1
      = d + k" by (simp add: n_def DayWithinYear_def)
  then show ?thesis by (simp add: MakeDay_def Let_def m l)
qed

lemma isoDay_decomp: "\<exists>q. n + 4 = 7 * q + isoDay n \<and> 1 \<le> isoDay n \<and> isoDay n \<le> 7"
proof (cases "(n + 4) mod 7 = 0")
  case True
  then have "n + 4 = 7 * ((n + 4) div 7 - 1) + 7" by (simp add: algebra_simps) presburger
  with True show ?thesis unfolding isoDay_def by (intro exI[of _ "(n + 4) div 7 - 1"]) simp
next
  case False
  have "n + 4 = 7 * ((n + 4) div 7) + (n + 4) mod 7" by simp
  moreover have "0 \<le> (n + 4) mod 7" "(n + 4) mod 7 < 7" by simp_all
  ultimately show ?thesis using False unfolding isoDay_def
    by (intro exI[of _ "(n + 4) div 7"]) auto
qed

lemma isoDay_range: "1 \<le> isoDay n \<and> isoDay n \<le> 7"
  using isoDay_decomp[of n] by auto

lemma mod7_plus: "(7 * q + c) mod 7 = c mod (7::int)"
  by (simp add: add.commute)

lemma thursday_facts:
  "(n + 4 - isoDay n) mod 7 = 0" "n - 3 \<le> n + 4 - isoDay n" "n + 4 - isoDay n \<le> n + 3"
proof -
  from isoDay_decomp[of n] obtain q where q: "n + 4 = 7 * q + isoDay n"
    and r: "1 \<le> isoDay n" "isoDay n \<le> 7" by auto
  from q have "n + 4 - isoDay n = 7 * q" by simp
  then show "(n + 4 - isoDay n) mod 7 = 0" by simp
  from r show "n - 3 \<le> n + 4 - isoDay n" "n + 4 - isoDay n \<le> n + 3" by simp_all
qed

lemma week1Monday_monday: "(week1Monday y + 4) mod 7 = 1"
proof -
  from isoDay_decomp[of "DayFromYear y + 3"] obtain q where
    "DayFromYear y + 3 + 4 = 7 * q + isoDay (DayFromYear y + 3)" by auto
  then have "week1Monday y + 4 = 7 * q + 1" by (simp add: week1Monday_def)
  then show ?thesis by (simp only: mod7_plus) simp
qed

lemma week1Monday_range: "DayFromYear y - 3 \<le> week1Monday y \<and> week1Monday y \<le> DayFromYear y + 3"
  using isoDay_range[of "DayFromYear y + 3"] by (simp add: week1Monday_def)

lemma thursday_of_week:
  fixes S n :: int
  assumes "(S + 4) mod 7 = 1" and "S \<le> n" and "n \<le> S + 6"
  shows "n + 4 - isoDay n = S + 3"
proof -
  from isoDay_decomp[of n] obtain q where q: "n + 4 = 7 * q + isoDay n"
    and r: "1 \<le> isoDay n" "isoDay n \<le> 7" by auto
  have "S + 4 = 7 * ((S + 4) div 7) + (S + 4) mod 7" by simp
  with assms(1) have p: "S + 4 = 7 * ((S + 4) div 7) + 1" by simp
  define p' where "p' = (S + 4) div 7"
  have "q = p'"
  proof (rule ccontr)
    assume "q \<noteq> p'"
    then consider "q \<le> p' - 1" | "p' + 1 \<le> q" by linarith
    then show False
      using q r p assms(2,3) unfolding p'_def[symmetric] by cases linarith+
  qed
  with q p show ?thesis unfolding p'_def[symmetric] by linarith
qed

lemma week_index:
  fixes w k :: int
  assumes "0 \<le> k" and "k \<le> 6"
  shows "ceil_div7 (k + 7 * (w - 1) + 1) = w"
proof -
  have "- (k + 7 * (w - 1) + 1) = 7 * (- w) + (6 - k)" by simp
  moreover have "(7 * (- w) + (6 - k)) div 7 = - w"
    using assms by (intro int_div_pos_eq[of _ _ _ "6 - k"]) simp_all
  ultimately show ?thesis by (simp add: ceil_div7_def)
qed

lemma jan4_iso:
  "(J + 4) mod 7 = 4 \<Longrightarrow> isoDay (J + 3) = 7" "(J + 4) mod 7 = 3 \<Longrightarrow> isoDay (J + 3) = 6"
proof -
  from isoDay_decomp[of "J + 3"] obtain q where q: "J + 3 + 4 = 7 * q + isoDay (J + 3)"
    and r: "1 \<le> isoDay (J + 3)" "isoDay (J + 3) \<le> 7" by auto
  from q have "J + 4 = 7 * q + (isoDay (J + 3) - 3)" by simp
  then have m: "(J + 4) mod 7 = (isoDay (J + 3) - 3) mod 7" by (simp only: mod7_plus)
  from r consider "isoDay (J + 3) = 1" | "isoDay (J + 3) = 2" | "isoDay (J + 3) = 3"
    | "isoDay (J + 3) = 4" | "isoDay (J + 3) = 5" | "isoDay (J + 3) = 6" | "isoDay (J + 3) = 7"
    by linarith
  then have "((J + 4) mod 7 = 4 \<longrightarrow> isoDay (J + 3) = 7) \<and> ((J + 4) mod 7 = 3 \<longrightarrow> isoDay (J + 3) = 6)"
    unfolding m by cases simp_all
  then show "(J + 4) mod 7 = 4 \<Longrightarrow> isoDay (J + 3) = 7"
    "(J + 4) mod 7 = 3 \<Longrightarrow> isoDay (J + 3) = 6" by simp_all
qed

lemma monday_plus_weeks:
  fixes m w :: int
  assumes "(m + 4) mod 7 = 1"
  shows "(m + 7 * (w - 1) + 4) mod 7 = 1" "(m + 7 * (w - 1) + 6 + 4) mod 7 = 0"
proof -
  have "m + 4 = 7 * ((m + 4) div 7) + (m + 4) mod 7" by simp
  with assms have p: "m + 4 = 7 * ((m + 4) div 7) + 1" by simp
  have "m + 7 * (w - 1) + 4 = 7 * ((m + 4) div 7 + (w - 1)) + 1" using p by simp
  then show "(m + 7 * (w - 1) + 4) mod 7 = 1" by (simp only: mod7_plus) simp
  have "m + 7 * (w - 1) + 6 + 4 = 7 * ((m + 4) div 7 + (w - 1) + 1) + 0" using p by simp
  then show "(m + 7 * (w - 1) + 6 + 4) mod 7 = 0" by (simp only: mod7_plus) simp
qed

lemma week_of_thursday:
  fixes T J L :: int
  assumes "T mod 7 = 0" and "J \<le> T" and "T < J + L" and "L = 365 \<or> L = 366"
  shows "1 \<le> ceil_div7 (T - J + 1)
     \<and> ceil_div7 (T - J + 1) \<le> (if (J + 4) mod 7 = 4 \<or> (L = 366 \<and> (J + 4) mod 7 = 3) then 53 else 52)"
proof -
  define k where "k = T - J"
  define q where "q = k div 7"
  define r where "r = k mod 7"
  have kq: "k = 7 * q + r" "0 \<le> r" "r \<le> 6" by (simp_all add: q_def r_def)
  have k: "0 \<le> k" "k \<le> 365" "L = 365 \<Longrightarrow> k \<le> 364" using assms by (auto simp: k_def)
  have "- (k + 1) = 7 * (- q - 1) + (6 - r)" using kq by simp
  moreover have "(7 * (- q - 1) + (6 - r)) div 7 = - q - 1"
    using kq by (intro int_div_pos_eq[of _ _ _ "6 - r"]) simp_all
  ultimately have c: "ceil_div7 (k + 1) = q + 1" by (simp add: ceil_div7_def)
  have lo: "0 \<le> q" using k(1) kq by linarith
  have hi: "q \<le> 52" using k(2) kq by linarith
  have Tm: "T = 7 * (T div 7)" using assms(1) by presburger
  have "q + 1 \<le> (if (J + 4) mod 7 = 4 \<or> (L = 366 \<and> (J + 4) mod 7 = 3) then 53 else 52)"
  proof (cases "q \<le> 51")
    case True
    then show ?thesis by auto
  next
    case False
    with hi have q52: "q = 52" by linarith
    with kq k have "k = 364 \<or> (k = 365 \<and> L = 366)" using assms(4) by auto
    then show ?thesis
    proof
      assume "k = 364"
      then have "J + 4 = 7 * (T div 7 - 52) + 4" using Tm by (simp add: k_def)
      then have "(J + 4) mod 7 = 4" by (simp only: mod7_plus) simp
      with q52 show ?thesis by simp
    next
      assume a: "k = 365 \<and> L = 366"
      then have "J + 4 = 7 * (T div 7 - 53) + 10" using Tm by (simp add: k_def)
      then have "(J + 4) mod 7 = 3" by (simp only: mod7_plus) simp
      with q52 a show ?thesis by simp
    qed
  qed
  with lo show ?thesis unfolding c k_def[symmetric] by simp
qed

lemma ms_diff_div: "(a * msPerDay - b * msPerDay) div 86400000 = a - b"
proof -
  have "a * msPerDay - b * msPerDay = (a - b) * 86400000"
    by (simp add: msPerDay_def left_diff_distrib)
  then show ?thesis by simp
qed

lemma Day_ms: "Day (n * msPerDay) = n" "TimeWithinDay (n * msPerDay) = 0"
  by (simp_all add: Day_def TimeWithinDay_def msPerDay_def)

lemma setUTCDate_shift: "setUTCDate t (getUTCDate t + k) = t + k * msPerDay"
proof -
  have "MakeDay (YearFromDay (Day t)) (MonthFromDay (Day t)) (DateFromDay (Day t) + k) = Day t + k"
    by (rule MakeDay_roundtrip)
  moreover have "Day t * msPerDay + TimeWithinDay t = t"
    by (simp add: Day_def TimeWithinDay_def)
  ultimately show ?thesis
    by (simp add: setUTCDate_def getUTCDate_def algebra_simps)
qed

lemma fullYear_id: "y < 0 \<or> 99 < y \<Longrightarrow> fullYear y = y"
  by (auto simp: fullYear_def)

lemma Date_UTC_fields:
  assumes "YearFromDay n < 0 \<or> 99 < YearFromDay n"
  shows "Date_UTC (YearFromDay n) (MonthFromDay n) (DateFromDay n) = n * msPerDay"
    and "new_Date z (YearFromDay n) (MonthFromDay n) (DateFromDay n) = UTC z (n * msPerDay)"
  using MakeDay_roundtrip[of n 0] assms
  by (simp_all add: Date_UTC_def new_Date_def fullYear_id)

lemma Date_UTC_jan:
  assumes "y < 0 \<or> 99 < y"
  shows "Date_UTC y 0 k = (DayFromYear y + k - 1) * msPerDay"
  using assms by (simp add: Date_UTC_def fullYear_id MakeDay_def DaysBeforeMonth_def)

lemma year_near:
  assumes "DayFromYear (y - 1) \<le> n" and "n < DayFromYear (y + 2)"
  shows "YearFromDay n = y - 1 \<or> YearFromDay n = y \<or> YearFromDay n = y + 1"
proof -
  from YearFromDay_bounds[of n] have b: "DayFromYear (YearFromDay n) \<le> n"
    "n < DayFromYear (YearFromDay n + 1)" by simp_all
  have "\<not> YearFromDay n < y - 1"
  proof
    assume "YearFromDay n < y - 1"
    then have "DayFromYear (YearFromDay n + 1) \<le> DayFromYear (y - 1)"
      by (intro DayFromYear_le) simp
    with b assms show False by linarith
  qed
  moreover have "\<not> y + 1 < YearFromDay n"
  proof
    assume "y + 1 < YearFromDay n"
    then have "DayFromYear (y + 2) \<le> DayFromYear (YearFromDay n)"
      by (intro DayFromYear_le) simp
    with b assms show False by linarith
  qed
  ultimately show ?thesis by linarith
qed

lemma weekStart_monday: "(weekStart w y + 4) mod 7 = 1"
  unfolding weekStart_def using week1Monday_monday[of y] by (rule monday_plus_weeks(1))

lemma weekStart_sunday: "(weekStart w y + 6 + 4) mod 7 = 0"
  unfolding weekStart_def using week1Monday_monday[of y] by (rule monday_plus_weeks(2))

lemma weekStart_thursday:
  assumes "1 \<le> w" and "w \<le> weeksInYear y"
  shows "DayFromYear y \<le> weekStart w y + 3 \<and> weekStart w y + 3 < DayFromYear (y + 1)"
proof -
  define J where "J = DayFromYear y"
  define k where "k = isoDay (J + 3)"
  have k: "1 \<le> k" "k \<le> 7" using isoDay_range[of "J + 3"] by (simp_all add: k_def)
  have s: "weekStart w y + 3 = J + 7 - k + 7 * w - 7"
    by (simp add: weekStart_def week1Monday_def J_def k_def)
  have n: "DayFromYear (y + 1) = J + DaysInYear y" by (simp add: DayFromYear_Suc J_def)
  have lo: "J \<le> weekStart w y + 3" unfolding s using k assms(1) by linarith
  have hi: "weekStart w y + 3 < J + DaysInYear y"
  proof (cases "w \<le> 52")
    case True
    with k DaysInYear_range[of y] show ?thesis unfolding s by linarith
  next
    case False
    with assms(2) have w: "w = 53" and c: "(J + 4) mod 7 = 4 \<or> (DaysInYear y = 366 \<and> (J + 4) mod 7 = 3)"
      by (auto simp: weeksInYear_def Let_def J_def split: if_splits)
    from c jan4_iso[of J] have "k = 7 \<or> (DaysInYear y = 366 \<and> k = 6)" by (auto simp: k_def)
    with w DaysInYear_range[of y] show ?thesis unfolding s by linarith
  qed
  from lo hi show ?thesis by (simp add: n J_def)
qed

lemma weekStart_index:
  assumes "1 \<le> w"
  shows "ceil_div7 (weekStart w y + 3 - DayFromYear y + 1) = w"
proof -
  define k where "k = 7 - isoDay (DayFromYear y + 3)"
  have k: "0 \<le> k" "k \<le> 6" using isoDay_range[of "DayFromYear y + 3"] by (simp_all add: k_def)
  have e: "weekStart w y + 3 - DayFromYear y + 1 = k + 7 * (w - 1) + 1"
    by (simp add: weekStart_def week1Monday_def k_def)
  show ?thesis unfolding e by (rule week_index[OF k])
qed

lemma weekStart_years:
  assumes "1 \<le> w" and "w \<le> weeksInYear y" and "weekStart w y \<le> n" and "n \<le> weekStart w y + 6"
  shows "YearFromDay n = y - 1 \<or> YearFromDay n = y \<or> YearFromDay n = y + 1"
proof (rule year_near)
  from weekStart_thursday[OF assms(1,2)] have t: "DayFromYear y \<le> weekStart w y + 3"
    "weekStart w y + 3 < DayFromYear (y + 1)" by simp_all
  have a: "DayFromYear (y - 1) + 365 \<le> DayFromYear y"
    using DayFromYear_Suc[of "y - 1"] DaysInYear_range[of "y - 1"] by auto
  have b: "DayFromYear (y + 1) + 365 \<le> DayFromYear (y + 2)"
    using DayFromYear_Suc[of "y + 1"] DaysInYear_range[of "y + 1"] by (auto simp: add.commute)
  show "DayFromYear (y - 1) \<le> n" using t a assms(3) by linarith
  show "n < DayFromYear (y + 2)" using t b assms(4) by linarith
qed

lemma YearFromDay_mono:
  assumes "a \<le> b"
  shows "YearFromDay a \<le> YearFromDay b"
proof (rule ccontr)
  assume "\<not> YearFromDay a \<le> YearFromDay b"
  then have "DayFromYear (YearFromDay b + 1) \<le> DayFromYear (YearFromDay a)"
    by (intro DayFromYear_le) simp
  with YearFromDay_bounds[of a] YearFromDay_bounds[of b] assms show False by linarith
qed

lemma valid_week_plain_years:
  assumes v: "valid_week w y" and lo: "weekStart w y \<le> n" and hi: "n \<le> weekStart w y + 6"
  shows "YearFromDay n < 0 \<or> 99 < YearFromDay n"
proof -
  from v have w: "1 \<le> w" "w \<le> weeksInYear y" and yr: "y < 0 \<or> 99 < y"
    and s: "YearFromDay (weekStart w y) < 0 \<or> 99 < YearFromDay (weekStart w y)"
    and e: "YearFromDay (weekStart w y + 6) < 0 \<or> 99 < YearFromDay (weekStart w y + 6)"
    by (auto simp: valid_week_def twoDigitYear_def)
  have a: "YearFromDay (weekStart w y) \<le> YearFromDay n" using lo by (rule YearFromDay_mono)
  have b: "YearFromDay n \<le> YearFromDay (weekStart w y + 6)" using hi by (rule YearFromDay_mono)
  have c: "y - 1 \<le> YearFromDay (weekStart w y)"
    using weekStart_years[OF w, of "weekStart w y"] by auto
  have d: "YearFromDay (weekStart w y + 6) \<le> y + 1"
    using weekStart_years[OF w, of "weekStart w y + 6"] by auto
  from yr s e a b c d show ?thesis by linarith
qed

lemma getWeekNumber_in_week:
  assumes v: "valid_week w y" and lo: "weekStart w y \<le> Day (LocalTime z t)"
    and hi: "Day (LocalTime z t) \<le> weekStart w y + 6"
  shows "getWeekNumber z (DateAt t) = Some (w, y)"
proof -
  define n where "n = Day (LocalTime z t)"
  from v have w: "1 \<le> w" "w \<le> weeksInYear y" and yr: "y < 0 \<or> 99 < y"
    by (auto simp: valid_week_def twoDigitYear_def)
  from valid_week_plain_years[OF v lo hi] have ny: "YearFromDay n < 0 \<or> 99 < YearFromDay n"
    unfolding n_def .
  have d0: "Date_UTC (getFullYear z t) (getMonth z t) (getDate z t) = n * msPerDay"
    using Date_UTC_fields(1)[OF ny] by (simp add: getFullYear_def getMonth_def getDate_def n_def)
  have wd: "(if getUTCDay (n * msPerDay) = 0 then 7 else getUTCDay (n * msPerDay)) = isoDay n"
    by (simp add: getUTCDay_def WeekDay_def Day_ms isoDay_def)
  have th: "n + 4 - isoDay n = weekStart w y + 3"
    using weekStart_monday[of w y] lo hi unfolding n_def by (rule thursday_of_week)
  have d1: "setUTCDate (n * msPerDay) (getUTCDate (n * msPerDay) + 4 - isoDay n)
      = (weekStart w y + 3) * msPerDay"
  proof -
    have a: "getUTCDate (n * msPerDay) + 4 - isoDay n = getUTCDate (n * msPerDay) + (4 - isoDay n)"
      by simp
    have b: "n * msPerDay + (4 - isoDay n) * msPerDay = (n + 4 - isoDay n) * msPerDay"
      by (simp add: algebra_simps)
    show ?thesis unfolding a setUTCDate_shift b th ..
  qed
  from weekStart_thursday[OF w] have ty: "YearFromDay (weekStart w y + 3) = y"
    by (intro YearFromDay_unique) simp_all
  have fy: "getUTCFullYear ((weekStart w y + 3) * msPerDay) = y"
    by (simp add: getUTCFullYear_def Day_ms ty)
  have ys: "Date_UTC y 0 1 = DayFromYear y * msPerDay"
    using Date_UTC_jan[of y 1] yr by auto
  have q: "((weekStart w y + 3) * msPerDay - DayFromYear y * msPerDay) div 86400000
      = weekStart w y + 3 - DayFromYear y"
    by (rule ms_diff_div)
  show ?thesis
    by (simp only: getWeekNumber.simps Let_def d0 wd d1 fy ys q weekStart_index[OF w(1)])
qed

lemma getWeekBounds_eq:
  assumes v: "valid_week w y"
  shows "getWeekBounds z w y
    = (DateAt (UTC z (weekStart w y * msPerDay)), DateAt (UTC z ((weekStart w y + 6) * msPerDay)))"
proof -
  define J where "J = DayFromYear y"
  from v have w: "1 \<le> w" "w \<le> weeksInYear y" and yr': "y < 0 \<or> 99 < y"
    by (auto simp: valid_week_def twoDigitYear_def)
  have j4: "Date_UTC y 0 4 = (J + 3) * msPerDay"
    using Date_UTC_jan[OF yr', of 4] by (simp add: J_def)
  have wd: "(if getUTCDay ((J + 3) * msPerDay) = 0 then 7 else getUTCDay ((J + 3) * msPerDay))
      = isoDay (J + 3)"
    by (simp add: getUTCDay_def WeekDay_def Day_ms isoDay_def)
  have m1: "setUTCDate ((J + 3) * msPerDay) (getUTCDate ((J + 3) * msPerDay) - isoDay (J + 3) + 1)
      = week1Monday y * msPerDay"
  proof -
    have a: "getUTCDate ((J + 3) * msPerDay) - isoDay (J + 3) + 1
        = getUTCDate ((J + 3) * msPerDay) + (1 - isoDay (J + 3))" by simp
    have b: "(J + 3) * msPerDay + (1 - isoDay (J + 3)) * msPerDay = week1Monday y * msPerDay"
      by (simp add: week1Monday_def J_def algebra_simps)
    show ?thesis unfolding a setUTCDate_shift b ..
  qed
  have st: "setUTCDate (week1Monday y * msPerDay) (getUTCDate (week1Monday y * msPerDay) + (w - 1) * 7)
      = weekStart w y * msPerDay"
  proof -
    have b: "week1Monday y * msPerDay + (w - 1) * 7 * msPerDay = weekStart w y * msPerDay"
      by (simp add: weekStart_def algebra_simps)
    show ?thesis unfolding setUTCDate_shift b ..
  qed
  have en: "setUTCDate (weekStart w y * msPerDay) (getUTCDate (weekStart w y * msPerDay) + 6)
      = (weekStart w y + 6) * msPerDay"
  proof -
    have b: "weekStart w y * msPerDay + 6 * msPerDay = (weekStart w y + 6) * msPerDay"
      by (simp add: algebra_simps)
    show ?thesis unfolding setUTCDate_shift b ..
  qed
  have ys: "YearFromDay (weekStart w y) < 0 \<or> 99 < YearFromDay (weekStart w y)"
    using v by (auto simp: valid_week_def twoDigitYear_def)
  have ye: "YearFromDay (weekStart w y + 6) < 0 \<or> 99 < YearFromDay (weekStart w y + 6)"
    using v by (auto simp: valid_week_def twoDigitYear_def)
  have ns: "new_Date z (getUTCFullYear (weekStart w y * msPerDay))
      (getUTCMonth (weekStart w y * msPerDay)) (getUTCDate (weekStart w y * msPerDay))
      = UTC z (weekStart w y * msPerDay)"
    using Date_UTC_fields(2)[OF ys, of z]
    by (simp add: getUTCFullYear_def getUTCMonth_def getUTCDate_def Day_ms)
  have ne: "new_Date z (getUTCFullYear ((weekStart w y + 6) * msPerDay))
      (getUTCMonth ((weekStart w y + 6) * msPerDay)) (getUTCDate ((weekStart w y + 6) * msPerDay))
      = UTC z ((weekStart w y + 6) * msPerDay)"
    using Date_UTC_fields(2)[OF ye, of z]
    by (simp add: getUTCFullYear_def getUTCMonth_def getUTCDate_def Day_ms)
  show ?thesis
    by (simp only: getWeekBounds_def Let_def j4 wd m1 st en ns ne)
qed


lemma getWeekNumber_valid:
  assumes yr: "getFullYear z t < -1 \<or> 100 < getFullYear z t"
    and g: "getWeekNumber z (DateAt t) = Some (w, y)"
  shows "1 \<le> w \<and> w \<le> weeksInYear y"
proof -
  define n where "n = Day (LocalTime z t)"
  define T where "T = n + 4 - isoDay n"
  define Y where "Y = YearFromDay n"
  from yr have yr': "Y < -1 \<or> 100 < Y"
    by (simp add: getFullYear_def n_def Y_def)
  then have ny: "YearFromDay n < 0 \<or> 99 < YearFromDay n"
    unfolding Y_def by linarith
  have d0: "Date_UTC (getFullYear z t) (getMonth z t) (getDate z t) = n * msPerDay"
    using Date_UTC_fields(1)[OF ny] by (simp add: getFullYear_def getMonth_def getDate_def n_def)
  have wd: "(if getUTCDay (n * msPerDay) = 0 then 7 else getUTCDay (n * msPerDay)) = isoDay n"
    by (simp add: getUTCDay_def WeekDay_def Day_ms isoDay_def)
  have d1: "setUTCDate (n * msPerDay) (getUTCDate (n * msPerDay) + 4 - isoDay n) = T * msPerDay"
  proof -
    have a: "getUTCDate (n * msPerDay) + 4 - isoDay n = getUTCDate (n * msPerDay) + (4 - isoDay n)"
      by simp
    have b: "n * msPerDay + (4 - isoDay n) * msPerDay = T * msPerDay"
      by (simp add: algebra_simps T_def)
    show ?thesis unfolding a setUTCDate_shift b ..
  qed
  have fy: "getUTCFullYear (T * msPerDay) = YearFromDay T"
    by (simp add: getUTCFullYear_def Day_ms)
  from YearFromDay_bounds[of n] have nb: "DayFromYear Y \<le> n" "n < DayFromYear (Y + 1)"
    by (simp_all add: Y_def)
  have a: "DayFromYear (Y - 1) + 365 \<le> DayFromYear Y"
    using DayFromYear_Suc[of "Y - 1"] DaysInYear_range[of "Y - 1"] by auto
  have b: "DayFromYear (Y + 1) + 365 \<le> DayFromYear (Y + 2)"
    using DayFromYear_Suc[of "Y + 1"] DaysInYear_range[of "Y + 1"] by (auto simp: add.commute)
  have tl: "DayFromYear (Y - 1) \<le> T"
    using thursday_facts(2)[of n] nb a unfolding T_def by linarith
  have tu: "T < DayFromYear (Y + 2)"
    using thursday_facts(3)[of n] nb b unfolding T_def by linarith
  from year_near[OF tl tu] yr' have ty: "YearFromDay T < 0 \<or> 99 < YearFromDay T"
    by linarith
  have ys: "Date_UTC (YearFromDay T) 0 1 = DayFromYear (YearFromDay T) * msPerDay"
  proof -
    have "DayFromYear (YearFromDay T) + 1 - 1 = DayFromYear (YearFromDay T)" by linarith
    then show ?thesis by (simp only: Date_UTC_jan[OF ty])
  qed
  have q: "(T * msPerDay - DayFromYear (YearFromDay T) * msPerDay) div 86400000
      = T - DayFromYear (YearFromDay T)"
    by (rule ms_diff_div)
  have "getWeekNumber z (DateAt t)
      = Some (ceil_div7 (T - DayFromYear (YearFromDay T) + 1), YearFromDay T)"
    by (simp only: getWeekNumber.simps Let_def d0 wd d1 fy ys q)
  with g have w: "w = ceil_div7 (T - DayFromYear y + 1)" and y: "y = YearFromDay T" by simp_all
  from YearFromDay_bounds[of T] have tb: "DayFromYear y \<le> T" "T < DayFromYear y + DaysInYear y"
    by (simp_all add: y DayFromYear_Suc)
  from week_of_thursday[OF thursday_facts(1)[of n, folded T_def] tb DaysInYear_range[of y]]
  show ?thesis by (simp add: w weeksInYear_def Let_def)
qed

section \<open>Facts about the rounding of doubles\<close>













section \<open>Facts about zones and valid weeks\<close>

text \<open>
  In a zone that is steady from \<open>a\<close> to \<open>b\<close> at the offset \<open>c\<close>, every time value
  from \<open>a\<close> to \<open>b\<close> and every local time from \<open>a + c\<close> to \<open>b + c\<close> is read with
  the offset \<open>c\<close>.
\<close>

lemma steady_utc:
  "steady cur trs a b c \<Longrightarrow> a \<le> t \<Longrightarrow> t \<le> b \<Longrightarrow> offsetAtUTC cur trs t = c"
proof (induction trs arbitrary: cur)
  case Nil
  then show ?case by simp
next
  case (Cons tr rest)
  show ?case
  proof (cases "b < fst tr \<and> b + c < fst tr + max cur (snd tr)")
    case True
    with Cons.prems show ?thesis by simp
  next
    case False
    with Cons.prems have "fst tr \<le> a" and "steady (snd tr) rest a b c" by simp_all
    with Cons.IH[of "snd tr"] Cons.prems(2,3) show ?thesis by simp
  qed
qed

lemma steady_local:
  "steady cur trs a b c \<Longrightarrow> a + c \<le> t \<Longrightarrow> t \<le> b + c \<Longrightarrow> offsetAtLocal cur trs t = c"
proof (induction trs arbitrary: cur)
  case Nil
  then show ?case by simp
next
  case (Cons tr rest)
  show ?case
  proof (cases "b < fst tr \<and> b + c < fst tr + max cur (snd tr)")
    case True
    with Cons.prems show ?thesis by simp
  next
    case False
    with Cons.prems have "fst tr + max cur (snd tr) \<le> a + c" and "steady (snd tr) rest a b c"
      by simp_all
    with Cons.IH[of "snd tr"] Cons.prems(2,3) show ?thesis by simp
  qed
qed

lemma steady_week_bounds:
  assumes "steady_week z w y"
  obtains c where "UTC z (weekStart w y * msPerDay) = weekStart w y * msPerDay - c"
    and "UTC z ((weekStart w y + 6) * msPerDay) = (weekStart w y + 6) * msPerDay - c"
    and "\<And>t. weekStart w y * msPerDay - c \<le> t \<Longrightarrow> t \<le> (weekStart w y + 6) * msPerDay - c
           \<Longrightarrow> LocalTime z t = t + c"
proof -
  define A where "A = weekStart w y * msPerDay"
  define c where "c = offsetAtLocal (z_offset z) (z_transitions z) A"
  have B: "(weekStart w y + 6) * msPerDay = A + 6 * msPerDay" by (simp add: A_def algebra_simps)
  from assms have st: "steady (z_offset z) (z_transitions z) (A - c) (A + 6 * msPerDay - c) c"
    by (simp add: steady_week_def Let_def A_def c_def)
  have d: "0 \<le> 6 * msPerDay" by (simp add: msPerDay_def)
  have 1: "UTC z A = A - c" by (simp add: UTC_def c_def)
  have "offsetAtLocal (z_offset z) (z_transitions z) (A + 6 * msPerDay) = c"
    using st d by (intro steady_local[where a = "A - c" and b = "A + 6 * msPerDay - c"]) simp_all
  then have 2: "UTC z (A + 6 * msPerDay) = A + 6 * msPerDay - c" by (simp add: UTC_def)
  have 3: "LocalTime z t = t + c" if "A - c \<le> t" "t \<le> A + 6 * msPerDay - c" for t
    using steady_utc[OF st that] by (simp add: LocalTime_def)
  show ?thesis using that[of c] 1 2 3 unfolding B A_def[symmetric] by blast
qed

lemma fixed_zone_steady: "z_transitions z = [] \<Longrightarrow> steady_week z w y"
  by (simp add: steady_week_def Let_def)

lemma week_index_div:
  assumes "1 \<le> w"
  shows "(weekStart w y + 3 - DayFromYear y) div 7 + 1 = w"
proof -
  define k where "k = 7 - isoDay (DayFromYear y + 3)"
  have k: "0 \<le> k" "k < 7" using isoDay_range[of "DayFromYear y + 3"] by (simp_all add: k_def)
  have e: "weekStart w y + 3 - DayFromYear y = 7 * (w - 1) + k"
    by (simp add: weekStart_def week1Monday_def k_def)
  have "(7 * (w - 1) + k) div 7 = w - 1"
    using k by (intro int_div_pos_eq[of _ _ _ k]) simp_all
  then show ?thesis unfolding e by simp
qed

text \<open>
  The weeks that \<open>valid_week\<close> leaves out, year by year: every week of the years 0 to 99
  and week 52 of the year -1. The year 100 begins on a Friday, so its week 1 begins on 4
  January 100; the year 0 begins on a Saturday, so week 52 of the year -1 ends on 2
  January 0.
\<close>

lemma YearFromDay_before: "n < DayFromYear y \<Longrightarrow> YearFromDay n < y"
proof (rule ccontr)
  assume a: "n < DayFromYear y" and "\<not> YearFromDay n < y"
  then have "DayFromYear y \<le> DayFromYear (YearFromDay n)" by (intro DayFromYear_le) simp
  with YearFromDay_bounds[of n] a show False by linarith
qed

lemma YearFromDay_from: "DayFromYear y \<le> n \<Longrightarrow> y \<le> YearFromDay n"
proof (rule ccontr)
  assume a: "DayFromYear y \<le> n" and "\<not> y \<le> YearFromDay n"
  then have "DayFromYear (YearFromDay n + 1) \<le> DayFromYear y" by (intro DayFromYear_le) simp
  with YearFromDay_bounds[of n] a show False by linarith
qed

lemma year_100_facts: "week1Monday 100 = DayFromYear 100 + 3"
  by (simp add: week1Monday_def isoDay_def DayFromYear_def)

lemma year_m1_facts:
  "week1Monday (- 1) = DayFromYear (- 1) + 3" "DayFromYear 0 = DayFromYear (- 1) + 365"
  "weeksInYear (- 1) = 52"
  by (simp_all add: week1Monday_def isoDay_def DayFromYear_def weeksInYear_def DaysInYear_def)

lemma valid_week_years:
  "valid_week w y \<longleftrightarrow>
     1 \<le> w \<and> w \<le> weeksInYear y \<and> - 271820 \<le> y \<and> y \<le> 275759
     \<and> (y < - 1 \<or> 99 < y \<or> (y = - 1 \<and> w \<le> 51))"
proof (cases "1 \<le> w \<and> w \<le> weeksInYear y")
  case False
  then show ?thesis by (auto simp: valid_week_def)
next
  case True
  then have w: "1 \<le> w" "w \<le> weeksInYear y" by simp_all
  let ?S = "weekStart w y"
  have lo: "y - 1 \<le> YearFromDay ?S" "y - 1 \<le> YearFromDay (?S + 6)"
    using weekStart_years[OF w, of ?S] weekStart_years[OF w, of "?S + 6"] by auto
  have hi: "YearFromDay ?S \<le> y + 1" "YearFromDay (?S + 6) \<le> y + 1"
    using weekStart_years[OF w, of ?S] weekStart_years[OF w, of "?S + 6"] by auto
  have mono: "YearFromDay ?S \<le> YearFromDay (?S + 6)" by (intro YearFromDay_mono) simp
  consider "y < - 1" | "100 < y" | "y = 100" | "y = - 1" | "0 \<le> y \<and> y \<le> 99" by linarith
  then show ?thesis
  proof cases
    case 1
    with lo hi True show ?thesis by (auto simp: valid_week_def twoDigitYear_def)
  next
    case 2
    with lo hi True show ?thesis by (auto simp: valid_week_def twoDigitYear_def)
  next
    case 3
    have "DayFromYear 100 \<le> weekStart w 100"
      using w(1) by (simp add: weekStart_def year_100_facts)
    then have "100 \<le> YearFromDay (weekStart w 100)" by (rule YearFromDay_from)
    with mono 3 True show ?thesis by (auto simp: valid_week_def twoDigitYear_def)
  next
    case 4
    have s6: "weekStart w (- 1) + 6 = DayFromYear 0 + 7 * w - 363"
      by (simp add: weekStart_def year_m1_facts)
    show ?thesis
    proof (cases "w \<le> 51")
      case le: True
      then have "weekStart w (- 1) + 6 < DayFromYear 0" unfolding s6 by simp
      then have "YearFromDay (weekStart w (- 1) + 6) < 0" by (rule YearFromDay_before)
      with mono 4 True le show ?thesis by (auto simp: valid_week_def twoDigitYear_def)
    next
      case gt: False
      with w 4 have w52: "w = 52" by (simp add: year_m1_facts)
      have s52: "weekStart 52 (- 1) + 6 = DayFromYear 0 + 1"
        by (simp add: weekStart_def year_m1_facts)
      have "YearFromDay (weekStart w (- 1) + 6) = 0"
        unfolding w52 s52 by (intro YearFromDay_unique) (simp_all add: DayFromYear_def)
      with 4 gt show ?thesis by (simp add: valid_week_def twoDigitYear_def)
    qed
  next
    case 5
    then show ?thesis by (auto simp: valid_week_def twoDigitYear_def)
  qed
qed

text \<open>
  What the left out weeks give: the bounds of week 1 of the year 50 are those of week 1 of
  1950, and week 52 of the year -1 ends on 2 January 1900.
\<close>

lemma two_digit_year_week:
  "getWeekBounds utcZone 1 50 = (DateAt (- 631065600000), DateAt (- 630547200000))
   \<and> getWeekNumber utcZone (DateAt (- 631065600000)) = Some (1, 1950)
   \<and> getWeekBounds utcZone 52 (- 1) = (DateAt (- 62167651200000), DateAt (- 2208902400000))
   \<and> getWeekNumber utcZone (DateAt (- 2208902400000)) = Some (1, 1900)"
  by code_simp

text \<open>
  The week of a date is the week of its local day: Monday 4 March 2024 at 02:00 UTC is
  still Sunday 3 March in New York.
\<close>

lemma local_date_decides_week:
  "getWeekNumber utcZone (DateAt 1709517600000) = Some (10, 2024)
   \<and> getWeekNumber newYork (DateAt 1709517600000) = Some (9, 2024)"
  by code_simp

text \<open>
  Two weeks in which Santiago is not steady. Week 19 of 2016 ends at the midnight at which
  the clock is set back an hour: \<^verbatim>\<open>endDate\<close> is six days and one hour after
  \<^verbatim>\<open>startDate\<close>. Week 32 of 2016 ends at the midnight at which the clock is set
  forward: \<^verbatim>\<open>endDate\<close> is six days after \<^verbatim>\<open>startDate\<close> and reads 01:00 on the
  local clock.
\<close>

lemma week_with_transition:
  "valid_week 19 2016 \<and> \<not> steady_week santiago 19 2016
   \<and> getWeekBounds santiago 19 2016 = (DateAt 1462762800000, DateAt 1463284800000)
   \<and> 1463284800000 - 1462762800000 = 6 * msPerDay + 3600000
   \<and> TimeWithinDay (LocalTime santiago 1463284800000) = 0
   \<and> valid_week 32 2016 \<and> \<not> steady_week santiago 32 2016
   \<and> getWeekBounds santiago 32 2016 = (DateAt 1470628800000, DateAt 1471147200000)
   \<and> 1471147200000 - 1470628800000 = 6 * msPerDay
   \<and> TimeWithinDay (LocalTime santiago 1471147200000) = 3600000"
  by code_simp

section \<open>C5: a duplicate course is rejected\<close>

text \<open>
  C5. When the stored courses hold a course whose name and department equal the trimmed
  arguments, \<^verbatim>\<open>createCourse\<close> returns a ValidationError and the state is the one
  before the call, so the number of stored courses is unchanged.
\<close>

theorem createCourse_duplicate_rejected:
  assumes "course \<in> set (getAllCourses w)"
    and "trim name = c_name course" and "trim department = c_department course"
  shows "(\<exists>m. createCourse newId now name department w = (Inl (ValidationError m), w))
       \<and> length (getAllCourses (snd (createCourse newId now name department w)))
           = length (getAllCourses w)"
proof -
  have "\<exists>m. createCourse newId now name department w = (Inl (ValidationError m), w)"
  proof -
  have ex: "courseExists (trim name) (trim department) w"
    using assms(1) unfolding courseExists_def Let_def trim_idem list_ex_iff getAllCourses_def
    by (intro bexI[of _ course]) (simp_all add: assms)
  show ?thesis
  proof (cases "validateNonEmptyString name")
    case None
    then show ?thesis by (simp add: createCourse_def)
  next
    case (Some vn)
    note vn = this
    show ?thesis
    proof (cases "validateNonEmptyString department")
      case None
      with vn show ?thesis by (simp add: createCourse_def)
    next
      case (Some vd)
      with vn ex show ?thesis
        by (auto simp: createCourse_def dest!: validate_Some_trim)
    qed
  qed
qed
  then show ?thesis by auto
qed

theorem createCourse_duplicate_rejected_witness:
  "course1 \<in> set (getAllCourses world1) \<and> trim '' Algebra '' = c_name course1
   \<and> trim ''Math'' = c_department course1
   \<and> (\<exists>m. createCourse ''c2'' 5 '' Algebra '' ''Math'' world1 = (Inl (ValidationError m), world1))
   \<and> length (getAllCourses (snd (createCourse ''c2'' 5 '' Algebra '' ''Math'' world1)))
       = length (getAllCourses world1)"
proof -
  have a: "course1 \<in> set (getAllCourses world1)"
    by (simp add: getAllCourses_def world1_def map_values_def)
  have b: "trim '' Algebra '' = c_name course1" by (simp add: trim_def is_ws_def course1_def)
  have c: "trim ''Math'' = c_department course1" by (simp add: trim_def is_ws_def course1_def)
  from createCourse_duplicate_rejected[OF a b c, of "''c2''" 5] a b c show ?thesis by blast
qed

section \<open>C10: operations on an id that is not in the collection\<close>

text \<open>
  \<^verbatim>\<open>updateTask\<close> on a missing id returns a ValidationError (its declared error type),
  not a NotFoundError.
\<close>

theorem updateTask_missing_id_counterexample:
  "getTask ''t9'' world1 = None
   \<and> updateTask ''t9'' noUpdates world1
       = (Inl (ValidationError ''Task with ID \"t9\" not found''), world1)
   \<and> \<not> isNotFoundError (ValidationError ''Task with ID \"t9\" not found'')"
  by (simp add: getTask_def updateTask_def world1_def map_get_def)

text \<open>
  C10, amended. For an id that is not in the collection, \<^verbatim>\<open>deleteTask\<close>,
  \<^verbatim>\<open>markComplete\<close> and \<^verbatim>\<open>markIncomplete\<close> return a NotFoundError and
  \<^verbatim>\<open>updateTask\<close> returns a ValidationError, each as a value with the message
  \<^verbatim>\<open>Task with ID "<id>" not found\<close>, and each leaves the whole state as it was.
\<close>

theorem missing_id_leaves_collection:
  assumes "getTask i w = None"
  shows "updateTask i updates w
           = (Inl (ValidationError (''Task with ID \"'' @ i @ ''\" not found'')), w)
       \<and> deleteTask i w
           = (Inl (NotFoundError (''Task with ID \"'' @ i @ ''\" not found'')), w)
       \<and> markComplete now i w
           = (Inl (NotFoundError (''Task with ID \"'' @ i @ ''\" not found'')), w)
       \<and> markIncomplete i w
           = (Inl (NotFoundError (''Task with ID \"'' @ i @ ''\" not found'')), w)"
  using assms
  by (simp add: getTask_def updateTask_def deleteTask_def markComplete_def markIncomplete_def)

theorem missing_id_leaves_collection_witness:
  "getTask ''t9'' world1 = None
   \<and> updateTask ''t9'' noUpdates world1
       = (Inl (ValidationError ''Task with ID \"t9\" not found''), world1)
   \<and> deleteTask ''t9'' world1
       = (Inl (NotFoundError ''Task with ID \"t9\" not found''), world1)
   \<and> markComplete 7 ''t9'' world1
       = (Inl (NotFoundError ''Task with ID \"t9\" not found''), world1)
   \<and> markIncomplete ''t9'' world1
       = (Inl (NotFoundError ''Task with ID \"t9\" not found''), world1)
   \<and> isNotFoundError (NotFoundError ''Task with ID \"t9\" not found'')"
proof -
  have a: "getTask ''t9'' world1 = None" by (simp add: getTask_def world1_def map_get_def)
  from missing_id_leaves_collection[OF a, of noUpdates 7] a show ?thesis
    by simp
qed

section \<open>C8: markComplete then markIncomplete\<close>

lemma markComplete_Inr:
  assumes "markComplete now i w = (Inr t, w')"
  shows "\<exists>t0. map_get i (tasks w) = Some t0
     \<and> t = t0\<lparr>t_completed := True, t_completedAt := Some (DateAt now)\<rparr>
     \<and> tasks w' = map_set i t (tasks w) \<and> courses w' = courses w"
proof (cases "map_get i (tasks w)")
  case None
  with assms show ?thesis by (simp add: markComplete_def)
next
  case (Some t0)
  let ?u = "t0\<lparr>t_completed := True, t_completedAt := Some (DateAt now)\<rparr>"
  from saveTasks_cases[of "w\<lparr>tasks := map_set i ?u (tasks w)\<rparr>"] assms Some
  show ?thesis by (auto simp: markComplete_def Let_def)
qed

lemma markIncomplete_Inr:
  assumes "markIncomplete i w = (Inr t, w')"
  shows "\<exists>t0. map_get i (tasks w) = Some t0
     \<and> t = t0\<lparr>t_completed := False, t_completedAt := None\<rparr>
     \<and> tasks w' = map_set i t (tasks w) \<and> courses w' = courses w"
proof (cases "map_get i (tasks w)")
  case None
  with assms show ?thesis by (simp add: markIncomplete_def)
next
  case (Some t0)
  let ?u = "t0\<lparr>t_completed := False, t_completedAt := None\<rparr>"
  from saveTasks_cases[of "w\<lparr>tasks := map_set i ?u (tasks w)\<rparr>"] assms Some
  show ?thesis by (auto simp: markIncomplete_def Let_def)
qed

text \<open>
  C8. When \<^verbatim>\<open>markComplete\<close> succeeds on a task and \<^verbatim>\<open>markIncomplete\<close> then
  succeeds on the same id, the task that results (returned, and stored under the id) has
  \<open>completed = false\<close> and no \<open>completedAt\<close>, and its id, courseId, description,
  deadline and createdAt are those of the task before \<^verbatim>\<open>markComplete\<close>.
\<close>

theorem complete_then_incomplete:
  assumes "markComplete now i w = (Inr t1, w1)" and "markIncomplete i w1 = (Inr t2, w2)"
  shows "\<exists>t0. getTask i w = Some t0 \<and> getTask i w2 = Some t2
     \<and> t_completed t2 = False \<and> t_completedAt t2 = None
     \<and> t_id t2 = t_id t0 \<and> t_courseId t2 = t_courseId t0
     \<and> t_description t2 = t_description t0 \<and> t_deadline t2 = t_deadline t0
     \<and> t_createdAt t2 = t_createdAt t0"
proof -
  from markComplete_Inr[OF assms(1)] obtain t0 where
    t0: "map_get i (tasks w) = Some t0"
    and t1: "t1 = t0\<lparr>t_completed := True, t_completedAt := Some (DateAt now)\<rparr>"
    and w1: "tasks w1 = map_set i t1 (tasks w)" by blast
  from markIncomplete_Inr[OF assms(2)] obtain t1' where
    t1': "map_get i (tasks w1) = Some t1'"
    and t2: "t2 = t1'\<lparr>t_completed := False, t_completedAt := None\<rparr>"
    and w2: "tasks w2 = map_set i t2 (tasks w1)" by blast
  from t1' w1 have "t1' = t1" by (simp add: map_get_def map_of_map_set)
  with t0 t1 t2 w2 show ?thesis
    by (simp add: getTask_def map_get_def map_of_map_set)
qed

theorem complete_then_incomplete_witness:
  "markComplete 7 ''t1'' world1
     = (Inr (task1\<lparr>t_completed := True, t_completedAt := Some (DateAt 7)\<rparr>),
        world1\<lparr>tasks := [(''t1'', task1\<lparr>t_completed := True, t_completedAt := Some (DateAt 7)\<rparr>)],
               stored_tasks := Some [task1\<lparr>t_completed := True, t_completedAt := Some (DateAt 7)\<rparr>]\<rparr>)
   \<and> markIncomplete ''t1'' (world1\<lparr>tasks := [(''t1'', task1\<lparr>t_completed := True, t_completedAt := Some (DateAt 7)\<rparr>)],
               stored_tasks := Some [task1\<lparr>t_completed := True, t_completedAt := Some (DateAt 7)\<rparr>]\<rparr>)
     = (Inr task1, world1)
   \<and> getTask ''t1'' world1 = Some task1"
proof -
  let ?t = "task1\<lparr>t_completed := True, t_completedAt := Some (DateAt 7)\<rparr>"
  let ?w = "world1\<lparr>tasks := [(''t1'', ?t)], stored_tasks := Some [?t]\<rparr>"
  have a: "markComplete 7 ''t1'' world1 = (Inr ?t, ?w)"
    by (simp add: markComplete_def world1_def map_get_def map_set_def saveTasks_def
        map_values_def Let_def)
  have b: "markIncomplete ''t1'' ?w = (Inr task1, world1)"
    by (simp add: markIncomplete_def world1_def map_get_def map_set_def saveTasks_def
        map_values_def Let_def task1_def)
  from complete_then_incomplete[OF a b] a b show ?thesis by auto
qed

section \<open>C4: the coordinator checks the course of a task\<close>

text \<open>
  C4. When \<open>courseId\<close> does not resolve through \<^verbatim>\<open>getCourse\<close>, the coordinator's
  \<^verbatim>\<open>createTask\<close> returns a ValidationError and creates no task, and its
  \<^verbatim>\<open>updateTask\<close> with that \<open>courseId\<close> in the updates returns a ValidationError
  and leaves every task unchanged (the state is the one before the call).
\<close>

theorem unresolved_course_rejected:
  assumes "getCourse courseId w = None"
  shows "(\<exists>m. tracker_createTask newId now courseId description deadline w
               = (Inl (ValidationError m), w))
       \<and> (\<exists>m. tracker_updateTask i (updates\<lparr>u_courseId := Some courseId\<rparr>) w
               = (Inl (ValidationError m), w))"
proof -
  have "\<exists>m. tracker_updateTask i (updates\<lparr>u_courseId := Some courseId\<rparr>) w
               = (Inl (ValidationError m), w)"
  proof (cases "courseId = []")
    case False
    with assms show ?thesis by (simp add: tracker_updateTask_def)
  next
    case True
    have v: "validateNonEmptyString [] = None"
      by (simp add: validateNonEmptyString_def trim_def)
    from True v show ?thesis
      by (simp add: tracker_updateTask_def updateTask_def split: option.splits)
  qed
  with assms show ?thesis by (simp add: tracker_createTask_def)
qed

theorem unresolved_course_rejected_witness:
  "getCourse ''c7'' world1 = None
   \<and> (\<exists>m. tracker_createTask ''t2'' 9 ''c7'' ''Lab'' (DateAt 0) world1
               = (Inl (ValidationError m), world1))
   \<and> (\<exists>m. tracker_updateTask ''t1'' (noUpdates\<lparr>u_courseId := Some ''c7''\<rparr>) world1
               = (Inl (ValidationError m), world1))"
proof -
  have a: "getCourse ''c7'' world1 = None" by (simp add: getCourse_def world1_def map_get_def)
  from unresolved_course_rejected[OF a, of "''t2''" 9 "''Lab''" "DateAt 0" "''t1''" noUpdates] a
  show ?thesis by blast
qed

section \<open>C2: a failed save is rolled back\<close>

lemma createTask_rolls_back:
  assumes "faults w = Some m # fs" "newId \<notin> fst ` set (tasks w)"
  shows "rolled_back w (createTask newId now courseId description deadline w)"
  using assms
  by (simp add: createTask_def rolled_back_def saveTasks_fail same_entries_refl
      map_delete_map_set_fresh Let_def split: option.splits)

lemma updateTask_rolls_back:
  assumes "faults w = Some m # fs" "distinct (map fst (tasks w))"
  shows "rolled_back w (updateTask i updates w)"
  using assms
  by (simp add: updateTask_def rolled_back_def saveTasks_fail same_entries_refl
      same_entries_set_set map_get_def Let_def split: option.splits)

lemma deleteTask_rolls_back:
  assumes "faults w = Some m # fs" "distinct (map fst (tasks w))"
  shows "rolled_back w (deleteTask i w)"
  using assms
  by (simp add: deleteTask_def rolled_back_def saveTasks_fail same_entries_refl
      same_entries_set_delete map_get_def Let_def split: option.splits)

lemma markComplete_rolls_back:
  assumes "faults w = Some m # fs" "distinct (map fst (tasks w))"
  shows "rolled_back w (markComplete now i w)"
  using assms
  by (simp add: markComplete_def rolled_back_def saveTasks_fail same_entries_refl
      same_entries_set_set map_get_def Let_def split: option.splits)

lemma markIncomplete_rolls_back:
  assumes "faults w = Some m # fs" "distinct (map fst (tasks w))"
  shows "rolled_back w (markIncomplete i w)"
  using assms
  by (simp add: markIncomplete_def rolled_back_def saveTasks_fail same_entries_refl
      same_entries_set_set map_get_def Let_def split: option.splits)

lemma createCourse_rolls_back:
  assumes "faults w = Some m # fs" "newId \<notin> fst ` set (courses w)"
  shows "rolled_back w (createCourse newId now name department w)"
  using assms
  by (simp add: createCourse_def rolled_back_def saveCourses_fail same_entries_refl
      map_delete_map_set_fresh Let_def split: option.splits)

lemma updateCourse_rolls_back:
  assumes "faults w = Some m # fs" "distinct (map fst (courses w))"
  shows "rolled_back w (updateCourse i updates w)"
  using assms
  by (simp add: updateCourse_def rolled_back_def saveCourses_fail same_entries_refl
      same_entries_set_set map_get_def Let_def split: option.splits)

lemma deleteCourse_rolls_back:
  assumes "faults w = Some m # fs" "distinct (map fst (courses w))"
  shows "rolled_back w (deleteCourse i w)"
  using assms
  by (simp add: deleteCourse_def rolled_back_def saveCourses_fail same_entries_refl
      same_entries_set_delete map_get_def Let_def split: option.splits)

text \<open>
  C2. When the next \<^verbatim>\<open>save\<close> of the storage fails, each mutating operation of
  CourseService and TaskService returns an error value and leaves both in-memory maps with
  the entries they had before the call. The maps have distinct keys, and \<open>newId\<close> is
  fresh, as a generated UUID is. (After a failed delete the restored entry stands last in
  the insertion order of the Map; the mapping and its entries are the same.)
\<close>

theorem failed_persist_rolls_back:
  assumes "faults w = Some m # fs"
    and "distinct (map fst (tasks w))" and "distinct (map fst (courses w))"
    and "newId \<notin> fst ` set (tasks w)" and "newId \<notin> fst ` set (courses w)"
  shows "rolled_back w (createCourse newId now name department w)
       \<and> rolled_back w (updateCourse i courseUpdates w)
       \<and> rolled_back w (deleteCourse i w)
       \<and> rolled_back w (createTask newId now courseId description deadline w)
       \<and> rolled_back w (updateTask j updates w)
       \<and> rolled_back w (deleteTask j w)
       \<and> rolled_back w (markComplete now j w)
       \<and> rolled_back w (markIncomplete j w)"
  using assms
  by (simp add: createCourse_rolls_back updateCourse_rolls_back deleteCourse_rolls_back
      createTask_rolls_back updateTask_rolls_back deleteTask_rolls_back
      markComplete_rolls_back markIncomplete_rolls_back)

theorem failed_persist_rolls_back_witness:
  "faults world1_failing = [Some ''quota'']
   \<and> distinct (map fst (tasks world1_failing)) \<and> distinct (map fst (courses world1_failing))
   \<and> ''n1'' \<notin> fst ` set (tasks world1_failing) \<and> ''n1'' \<notin> fst ` set (courses world1_failing)
   \<and> rolled_back world1_failing (createCourse ''n1'' 3 ''Logic'' ''Math'' world1_failing)
   \<and> rolled_back world1_failing (updateCourse ''c1'' \<lparr>u_name = Some ''Logic'', u_department = None\<rparr> world1_failing)
   \<and> rolled_back world1_failing (deleteCourse ''c1'' world1_failing)
   \<and> rolled_back world1_failing (createTask ''n1'' 3 ''c1'' ''Lab'' (DateAt 5) world1_failing)
   \<and> rolled_back world1_failing (updateTask ''t1'' (noUpdates\<lparr>u_description := Some ''Lab''\<rparr>) world1_failing)
   \<and> rolled_back world1_failing (deleteTask ''t1'' world1_failing)
   \<and> rolled_back world1_failing (markComplete 3 ''t1'' world1_failing)
   \<and> rolled_back world1_failing (markIncomplete ''t1'' world1_failing)"
proof -
  have a: "faults world1_failing = Some ''quota'' # []" by (simp add: world1_failing_def)
  have b: "distinct (map fst (tasks world1_failing))" by (simp add: world1_failing_def world1_def)
  have c: "distinct (map fst (courses world1_failing))" by (simp add: world1_failing_def world1_def)
  have d: "''n1'' \<notin> fst ` set (tasks world1_failing)" by (simp add: world1_failing_def world1_def)
  have e: "''n1'' \<notin> fst ` set (courses world1_failing)" by (simp add: world1_failing_def world1_def)
  from failed_persist_rolls_back[OF a b c d e, of 3 "''Logic''" "''Math''" "''c1''"
      "\<lparr>u_name = Some ''Logic'', u_department = None\<rparr>" "''c1''" "''Lab''" "DateAt 5"
      "''t1''" "noUpdates\<lparr>u_description := Some ''Lab''\<rparr>"] a b c d e
  show ?thesis by simp
qed

section \<open>C1: completedAt is defined iff completed\<close>

lemma createTask_consistent:
  assumes "all_consistent w"
  shows "all_consistent (snd (createTask newId now courseId description deadline w))"
proof -
  { fix t :: Task assume t: "completedAt_iff_completed t" and i: "t_id t = newId"
    obtain r w' where s: "saveTasks (w\<lparr>tasks := map_set newId t (tasks w)\<rparr>) = (r, w')"
      and tw: "tasks w' = map_set newId t (tasks w)"
      using saveTasks_result[of "w\<lparr>tasks := map_set newId t (tasks w)\<rparr>"] by auto
    have "all_consistent (snd (case saveTasks (w\<lparr>tasks := map_set newId t (tasks w)\<rparr>) of
                     (Inl e, w2) \<Rightarrow>
                       (Inl (ValidationError (''Failed to save task: '' @ message e)),
                        w2\<lparr>tasks := map_delete (t_id t) (tasks w2)\<rparr>)
                   | (Inr u, w2) \<Rightarrow> (Inr t, w2)))"
      using s tw t assms
      by (cases r) (simp_all add: all_consistent_def getAllTasks_def list_all_map_set list_all_map_delete)
  }
  note step = this
  show ?thesis
    unfolding createTask_def
    by (auto simp: assms Let_def completedAt_iff_completed_def split: option.splits intro!: step)
qed

lemma replace_consistent:
  assumes "all_consistent w" and "map_get i (tasks w) = Some existing"
    and "completedAt_iff_completed updated"
  shows "all_consistent (snd (case saveTasks (w\<lparr>tasks := map_set i updated (tasks w)\<rparr>) of
            (Inl e, w2) \<Rightarrow> (f e, w2\<lparr>tasks := map_set i existing (tasks w2)\<rparr>)
          | (Inr u, w2) \<Rightarrow> (g, w2)))"
proof -
  obtain r w' where s: "saveTasks (w\<lparr>tasks := map_set i updated (tasks w)\<rparr>) = (r, w')"
    and tw: "tasks w' = map_set i updated (tasks w)"
    using saveTasks_result[of "w\<lparr>tasks := map_set i updated (tasks w)\<rparr>"] by auto
  have ex: "completedAt_iff_completed existing"
    using assms(1,2) by (auto simp: all_consistent_def getAllTasks_def dest: list_all_map_get)
  show ?thesis
    using s tw ex assms(1,3)
    by (cases r) (simp_all add: all_consistent_def getAllTasks_def list_all_map_set)
qed

lemma markComplete_consistent:
  "all_consistent w \<Longrightarrow> all_consistent (snd (markComplete now i w))"
  unfolding markComplete_def
  by (auto simp: Let_def completedAt_iff_completed_def split: option.splits
      intro!: replace_consistent)

lemma markIncomplete_consistent:
  "all_consistent w \<Longrightarrow> all_consistent (snd (markIncomplete i w))"
  unfolding markIncomplete_def
  by (auto simp: Let_def completedAt_iff_completed_def split: option.splits
      intro!: replace_consistent)

lemma deleteTask_consistent:
  assumes "all_consistent w"
  shows "all_consistent (snd (deleteTask i w))"
proof (cases "map_get i (tasks w)")
  case None
  with assms show ?thesis by (simp add: deleteTask_def)
next
  case (Some existing)
  obtain r w' where s: "saveTasks (w\<lparr>tasks := map_delete i (tasks w)\<rparr>) = (r, w')"
    and tw: "tasks w' = map_delete i (tasks w)"
    using saveTasks_result[of "w\<lparr>tasks := map_delete i (tasks w)\<rparr>"] by auto
  have ex: "completedAt_iff_completed existing"
    using assms Some by (auto simp: all_consistent_def getAllTasks_def dest: list_all_map_get)
  show ?thesis
    using s tw ex assms Some
    by (cases r) (simp_all add: deleteTask_def all_consistent_def getAllTasks_def
        list_all_map_set list_all_map_delete)
qed

lemma updateTask_consistent:
  assumes "all_consistent w"
    and "(u_completed updates = None \<and> u_completedAt updates = None)
       \<or> (u_completed updates = Some True \<and> u_completedAt updates \<noteq> None)"
  shows "all_consistent (snd (updateTask i updates w))"
proof (cases "map_get i (tasks w)")
  case None
  with assms show ?thesis by (simp add: updateTask_def)
next
  case (Some existing)
  have ex: "completedAt_iff_completed existing"
    using assms(1) Some by (auto simp: all_consistent_def getAllTasks_def dest: list_all_map_get)
  show ?thesis
    unfolding updateTask_def using assms Some ex
    by (auto simp: Let_def completedAt_iff_completed_def split: option.splits
      intro!: replace_consistent)
qed

text \<open>
  \<^verbatim>\<open>updateTask\<close> merges \<open>completed\<close> and \<open>completedAt\<close> independently: an
  update that supplies \<open>completed = true\<close> alone leaves a completed task without
  \<open>completedAt\<close>.
\<close>

theorem updateTask_breaks_invariant_counterexample:
  "all_consistent world1
   \<and> \<not> all_consistent (snd (updateTask ''t1'' (noUpdates\<lparr>u_completed := Some True\<rparr>) world1))"
  by (simp add: all_consistent_def getAllTasks_def world1_def task1_def map_values_def
      completedAt_iff_completed_def updateTask_def map_get_def noUpdates_def map_set_def
      saveTasks_def Let_def)

text \<open>
  C1, amended. When every task of the collection satisfies the invariant, every task
  still satisfies it after \<^verbatim>\<open>createTask\<close>, \<^verbatim>\<open>markComplete\<close>,
  \<^verbatim>\<open>markIncomplete\<close> and \<^verbatim>\<open>deleteTask\<close>, and after \<^verbatim>\<open>updateTask\<close>
  with updates that supply neither \<open>completed\<close> nor \<open>completedAt\<close>, or that supply
  \<open>completed = true\<close> together with a \<open>completedAt\<close>.
\<close>

theorem completion_invariant_preserved:
  assumes "all_consistent w"
  shows "all_consistent (snd (createTask newId now courseId description deadline w))
       \<and> all_consistent (snd (markComplete now i w))
       \<and> all_consistent (snd (markIncomplete i w))
       \<and> all_consistent (snd (deleteTask i w))
       \<and> all_consistent (snd (updateTask i
            (updates\<lparr>u_completed := None, u_completedAt := None\<rparr>) w))
       \<and> all_consistent (snd (updateTask i
            (updates\<lparr>u_completed := Some True, u_completedAt := Some d\<rparr>) w))"
  using assms
  by (simp add: createTask_consistent markComplete_consistent markIncomplete_consistent
      deleteTask_consistent updateTask_consistent)

theorem completion_invariant_preserved_witness:
  "all_consistent world1
   \<and> all_consistent (snd (createTask ''t2'' 3 ''c1'' ''Lab'' (DateAt 5) world1))
   \<and> all_consistent (snd (markComplete 3 ''t1'' world1))
   \<and> all_consistent (snd (markIncomplete ''t1'' world1))
   \<and> all_consistent (snd (deleteTask ''t1'' world1))
   \<and> all_consistent (snd (updateTask ''t1''
            (noUpdates\<lparr>u_completed := None, u_completedAt := None\<rparr>) world1))
   \<and> all_consistent (snd (updateTask ''t1''
            (noUpdates\<lparr>u_completed := Some True, u_completedAt := Some (DateAt 9)\<rparr>) world1))"
proof -
  have a: "all_consistent world1"
    by (simp add: all_consistent_def getAllTasks_def world1_def task1_def map_values_def
      completedAt_iff_completed_def)
  from completion_invariant_preserved[OF a, of "''t2''" 3 "''c1''" "''Lab''" "DateAt 5" "''t1''"
      noUpdates "DateAt 9"] a
  show ?thesis by simp
qed

section \<open>C3: no task references a course deleted with its tasks\<close>

text \<open>The invariants hold in the empty state and every operation keeps them.\<close>

lemma list_all_entries_map_set:
  "Q (k, v) \<Longrightarrow> list_all Q m \<Longrightarrow> list_all Q (map_set k v m)"
  by (auto simp: map_set_def list_all_iff)

lemma list_all_entries_map_delete: "list_all Q m \<Longrightarrow> list_all Q (map_delete k m)"
  by (auto simp: map_delete_def list_all_iff)

lemma list_all_entries_get: "list_all Q m \<Longrightarrow> map_get k m = Some v \<Longrightarrow> Q (k, v)"
  by (auto simp: map_get_def list_all_iff dest: map_of_SomeD)

lemma wf_tasks_set:
  "wf_tasks w \<Longrightarrow> t_id t = k \<Longrightarrow> tasks w' = map_set k t (tasks w) \<Longrightarrow> wf_tasks w'"
  by (simp add: wf_tasks_def distinct_map_set list_all_entries_map_set)

lemma wf_tasks_delete:
  "wf_tasks w \<Longrightarrow> tasks w' = map_delete k (tasks w) \<Longrightarrow> wf_tasks w'"
  by (simp add: wf_tasks_def distinct_map_delete list_all_entries_map_delete)

lemma wf_tasks_same: "wf_tasks w \<Longrightarrow> tasks w' = tasks w \<Longrightarrow> wf_tasks w'"
  by (simp add: wf_tasks_def)

lemma wf_tasks_get: "wf_tasks w \<Longrightarrow> map_get k (tasks w) = Some t \<Longrightarrow> t_id t = k"
  using list_all_entries_get[of "\<lambda>p. fst p = t_id (snd p)" "tasks w" k t]
  by (simp add: wf_tasks_def)

lemma wf_tasks_emptyWorld: "wf_tasks emptyWorld \<and> wf_courses emptyWorld"
  by (simp add: wf_tasks_def wf_courses_def emptyWorld_def)

lemma replace_wf:
  assumes "wf_tasks w" and "map_get i (tasks w) = Some existing" and "t_id updated = i"
  shows "wf_tasks (snd (case saveTasks (w\<lparr>tasks := map_set i updated (tasks w)\<rparr>) of
            (Inl e, w2) \<Rightarrow> (f e, w2\<lparr>tasks := map_set i existing (tasks w2)\<rparr>)
          | (Inr u, w2) \<Rightarrow> (g, w2)))"
proof -
  obtain r w' where s: "saveTasks (w\<lparr>tasks := map_set i updated (tasks w)\<rparr>) = (r, w')"
    and tw: "tasks w' = map_set i updated (tasks w)"
    using saveTasks_result[of "w\<lparr>tasks := map_set i updated (tasks w)\<rparr>"] by auto
  have ex: "t_id existing = i" using assms(1,2) by (rule wf_tasks_get)
  have w': "wf_tasks w'" using assms(1,3) tw by (rule wf_tasks_set)
  show ?thesis
  proof (cases r)
    case (Inl e)
    with s show ?thesis by (simp add: wf_tasks_set[OF w' ex])
  next
    case (Inr v)
    with s w' show ?thesis by simp
  qed
qed

lemma wf_tasks_preserved:
  assumes "wf_tasks w"
  shows "wf_tasks (snd (createTask newId now courseId description deadline w))"
    and "wf_tasks (snd (updateTask i updates w))"
    and "wf_tasks (snd (deleteTask i w))"
    and "wf_tasks (snd (markComplete now i w))"
    and "wf_tasks (snd (markIncomplete i w))"
proof -
  show "wf_tasks (snd (markComplete now i w))"
    unfolding markComplete_def using assms
    by (auto simp: Let_def wf_tasks_get split: option.splits intro!: replace_wf)
  show "wf_tasks (snd (markIncomplete i w))"
    unfolding markIncomplete_def using assms
    by (auto simp: Let_def wf_tasks_get split: option.splits intro!: replace_wf)
  show "wf_tasks (snd (updateTask i updates w))"
    unfolding updateTask_def using assms
    by (auto simp: Let_def wf_tasks_get split: option.splits intro!: replace_wf)
  show "wf_tasks (snd (deleteTask i w))"
  proof (cases "map_get i (tasks w)")
    case None
    with assms show ?thesis by (simp add: deleteTask_def)
  next
    case (Some existing)
    obtain r w' where s: "saveTasks (w\<lparr>tasks := map_delete i (tasks w)\<rparr>) = (r, w')"
      and tw: "tasks w' = map_delete i (tasks w)"
      using saveTasks_result[of "w\<lparr>tasks := map_delete i (tasks w)\<rparr>"] by auto
    have ex: "t_id existing = i" using assms Some by (rule wf_tasks_get)
    have w': "wf_tasks w'" using assms tw by (rule wf_tasks_delete)
    show ?thesis
    proof (cases r)
      case (Inl e)
      with s Some show ?thesis by (simp add: deleteTask_def wf_tasks_set[OF w' ex])
    next
      case (Inr v)
      with s Some w' show ?thesis by (simp add: deleteTask_def)
    qed
  qed
  show "wf_tasks (snd (createTask newId now courseId description deadline w))"
  proof -
    { fix t :: Task assume i: "t_id t = newId"
      obtain r w' where s: "saveTasks (w\<lparr>tasks := map_set newId t (tasks w)\<rparr>) = (r, w')"
        and tw: "tasks w' = map_set newId t (tasks w)"
        using saveTasks_result[of "w\<lparr>tasks := map_set newId t (tasks w)\<rparr>"] by auto
      have w': "wf_tasks w'" using assms i tw by (rule wf_tasks_set)
      have "wf_tasks (snd (case saveTasks (w\<lparr>tasks := map_set newId t (tasks w)\<rparr>) of
                       (Inl e, w2) \<Rightarrow>
                         (Inl (ValidationError (''Failed to save task: '' @ message e)),
                          w2\<lparr>tasks := map_delete (t_id t) (tasks w2)\<rparr>)
                     | (Inr u, w2) \<Rightarrow> (Inr t, w2)))"
        using s w' by (cases r) (simp_all add: wf_tasks_delete[OF w'])
    }
    note step = this
    show ?thesis
      unfolding createTask_def
      by (auto simp: assms Let_def split: option.splits intro!: step)
  qed
qed

lemma saveCourses_result:
  "\<exists>r w'. saveCourses w = (r, w') \<and> tasks w' = tasks w \<and> courses w' = courses w"
  by (auto simp: saveCourses_def Let_def split: list.splits option.splits)

lemma wf_courses_set:
  "wf_courses w \<Longrightarrow> c_id c = k \<Longrightarrow> trim k = k \<Longrightarrow> courses w' = map_set k c (courses w)
   \<Longrightarrow> wf_courses w'"
  by (simp add: wf_courses_def distinct_map_set list_all_entries_map_set)

lemma wf_courses_delete:
  "wf_courses w \<Longrightarrow> courses w' = map_delete k (courses w) \<Longrightarrow> wf_courses w'"
  by (simp add: wf_courses_def distinct_map_delete list_all_entries_map_delete)

lemma wf_courses_get:
  "wf_courses w \<Longrightarrow> map_get k (courses w) = Some c \<Longrightarrow> c_id c = k \<and> trim k = k"
  using list_all_entries_get[of "\<lambda>p. fst p = c_id (snd p) \<and> trim (fst p) = fst p" "courses w" k c]
  by (auto simp: wf_courses_def)

lemma replace_wf_courses:
  assumes "wf_courses w" and "map_get i (courses w) = Some existing" and "c_id updated = i"
  shows "wf_courses (snd (case saveCourses (w\<lparr>courses := map_set i updated (courses w)\<rparr>) of
            (Inl e, w2) \<Rightarrow> (f e, w2\<lparr>courses := map_set i existing (courses w2)\<rparr>)
          | (Inr u, w2) \<Rightarrow> (g, w2)))"
proof -
  obtain r w' where s: "saveCourses (w\<lparr>courses := map_set i updated (courses w)\<rparr>) = (r, w')"
    and tw: "courses w' = map_set i updated (courses w)"
    using saveCourses_result[of "w\<lparr>courses := map_set i updated (courses w)\<rparr>"] by auto
  from wf_courses_get[OF assms(1,2)] have ex: "c_id existing = i" and tr: "trim i = i" by simp_all
  have w': "wf_courses w'" using assms(1,3) tr tw by (rule wf_courses_set)
  show ?thesis
  proof (cases r)
    case (Inl e)
    with s show ?thesis by (simp add: wf_courses_set[OF w' ex tr])
  next
    case (Inr v)
    with s w' show ?thesis by simp
  qed
qed

lemma wf_courses_preserved:
  assumes "wf_courses w"
  shows "trim newId = newId \<Longrightarrow> wf_courses (snd (createCourse newId now name department w))"
    and "wf_courses (snd (updateCourse i updates w))"
    and "wf_courses (snd (deleteCourse i w))"
proof -
  show "wf_courses (snd (updateCourse i updates w))"
    unfolding updateCourse_def using assms
    by (auto simp: Let_def wf_courses_get split: option.splits intro!: replace_wf_courses)
  show "wf_courses (snd (deleteCourse i w))"
  proof (cases "map_get i (courses w)")
    case None
    with assms show ?thesis by (simp add: deleteCourse_def)
  next
    case (Some existing)
    from wf_courses_get[OF assms Some] have ex: "c_id existing = i" and tr: "trim i = i" by simp_all
    obtain r w' where s: "saveCourses (w\<lparr>courses := map_delete i (courses w)\<rparr>) = (r, w')"
      and tw: "courses w' = map_delete i (courses w)"
      using saveCourses_result[of "w\<lparr>courses := map_delete i (courses w)\<rparr>"] by auto
    have w': "wf_courses w'" using assms tw by (rule wf_courses_delete)
    show ?thesis
    proof (cases r)
      case (Inl e)
      with s Some show ?thesis by (simp add: deleteCourse_def wf_courses_set[OF w' ex tr])
    next
      case (Inr v)
      with s Some w' show ?thesis by (simp add: deleteCourse_def)
    qed
  qed
  show "wf_courses (snd (createCourse newId now name department w))" if tr: "trim newId = newId"
  proof -
    { fix c :: Course assume i: "c_id c = newId"
      obtain r w' where s: "saveCourses (w\<lparr>courses := map_set newId c (courses w)\<rparr>) = (r, w')"
        and tw: "courses w' = map_set newId c (courses w)"
        using saveCourses_result[of "w\<lparr>courses := map_set newId c (courses w)\<rparr>"] by auto
      have w': "wf_courses w'" using assms i tr tw by (rule wf_courses_set)
      have "wf_courses (snd (case saveCourses (w\<lparr>courses := map_set newId c (courses w)\<rparr>) of
                       (Inl e, w2) \<Rightarrow>
                         (Inl (ValidationError (''Failed to save course: '' @ message e)),
                          w2\<lparr>courses := map_delete (c_id c) (courses w2)\<rparr>)
                     | (Inr u, w2) \<Rightarrow> (Inr c, w2)))"
        using s w' by (cases r) (simp_all add: wf_courses_delete[OF w'])
    }
    note step = this
    show ?thesis
      unfolding createCourse_def
      by (auto simp: assms Let_def split: option.splits intro!: step)
  qed
qed

text \<open>What the loops and the deletions leave when they succeed.\<close>

lemma deleteTask_Inr:
  assumes "deleteTask i w = (Inr u, w')"
  shows "tasks w' = map_delete i (tasks w) \<and> courses w' = courses w"
proof (cases "map_get i (tasks w)")
  case None
  with assms show ?thesis by (simp add: deleteTask_def)
next
  case (Some t0)
  from saveTasks_cases[of "w\<lparr>tasks := map_delete i (tasks w)\<rparr>"] assms Some
  show ?thesis by (auto simp: deleteTask_def Let_def)
qed

lemma deleteCourse_Inr:
  assumes "deleteCourse i w = (Inr u, w')"
  shows "courses w' = map_delete i (courses w) \<and> tasks w' = tasks w"
proof (cases "map_get i (courses w)")
  case None
  with assms show ?thesis by (simp add: deleteCourse_def)
next
  case (Some t0)
  from saveCourses_cases[of "w\<lparr>courses := map_delete i (courses w)\<rparr>"] assms Some
  show ?thesis by (auto simp: deleteCourse_def Let_def)
qed

lemma deleteAssociated_Inr:
  "deleteAssociated L w = (Inr u, w') \<Longrightarrow>
   tasks w' = filter (\<lambda>p. fst p \<notin> t_id ` set L) (tasks w) \<and> courses w' = courses w"
proof (induction L arbitrary: w)
  case Nil
  then show ?case by simp
next
  case (Cons task rest)
  show ?case
  proof (cases "deleteTask (t_id task) w")
    case (Pair r w1)
    show ?thesis
    proof (cases r)
      case (Inl e)
      with Pair Cons.prems show ?thesis by simp
    next
      case (Inr v)
      with Pair Cons.prems have rest: "deleteAssociated rest w1 = (Inr u, w')" by simp
      from Pair Inr have "tasks w1 = map_delete (t_id task) (tasks w) \<and> courses w1 = courses w"
        by (simp add: deleteTask_Inr)
      with Cons.IH[OF rest] show ?thesis
        by (auto simp: map_delete_def intro: filter_cong)
    qed
  qed
qed

lemma replace_as_map:
  assumes "distinct (map fst m)" "map_of m k = Some v"
  shows "map (\<lambda>p. if fst p = k then (k, f v) else p) m
       = map (\<lambda>p. if fst p = k then (fst p, f (snd p)) else p) m"
proof (rule map_cong[OF refl])
  fix p assume "p \<in> set m"
  moreover have "(k, v) \<in> set m" using assms(2) by (rule map_of_SomeD)
  ultimately show "(if fst p = k then (k, f v) else p) = (if fst p = k then (fst p, f (snd p)) else p)"
    using assms(1) eq_key_imp_eq_value[of m k v "snd p"] by (cases p) auto
qed

lemma reassign_step:
  assumes "updateTask i (noUpdates\<lparr>u_courseId := Some c\<rparr>) w = (Inr t, w')"
    and "distinct (map fst (tasks w))" and "validateNonEmptyString c = Some c'"
  shows "tasks w' = map (repoint c' {i}) (tasks w) \<and> courses w' = courses w"
proof (cases "map_get i (tasks w)")
  case None
  with assms show ?thesis by (simp add: updateTask_def)
next
  case (Some t0)
  let ?u = "t0\<lparr>t_courseId := c'\<rparr>"
  have kin: "i \<in> fst ` set (tasks w)" using Some by (simp add: map_get_def map_of_Some_key)
  have "map (\<lambda>p. if fst p = i then (i, (\<lambda>t. t\<lparr>t_courseId := c'\<rparr>) t0) else p) (tasks w)
      = map (\<lambda>p. if fst p = i then (fst p, (\<lambda>t. t\<lparr>t_courseId := c'\<rparr>) (snd p)) else p) (tasks w)"
    using assms(2) Some by (intro replace_as_map) (simp_all add: map_get_def)
  then have ms: "map_set i ?u (tasks w) = map (repoint c' {i}) (tasks w)"
    using kin by (simp add: map_set_def repoint_def)
  from saveTasks_cases[of "w\<lparr>tasks := map_set i ?u (tasks w)\<rparr>"] assms(1,3) Some ms
  show ?thesis by (auto simp: updateTask_def Let_def noUpdates_def)
qed

lemma map_fst_repoint: "map fst (map (repoint c K) m) = map fst m"
  by (induction m) (simp_all add: repoint_def)

lemma repoint_repoint: "repoint c K (repoint c {k} p) = repoint c (insert k K) p"
  by (cases p) (auto simp: repoint_def)

lemma reassignAssociated_Inr:
  "reassignAssociated c L w = (Inr u, w') \<Longrightarrow> distinct (map fst (tasks w)) \<Longrightarrow>
   validateNonEmptyString c = Some c' \<Longrightarrow>
   tasks w' = map (repoint c' (t_id ` set L)) (tasks w) \<and> courses w' = courses w"
proof (induction L arbitrary: w)
  case Nil
  have "map (repoint c' {}) (tasks w) = tasks w"
    by (rule map_idI) (simp add: repoint_def)
  with Nil show ?case by simp
next
  case (Cons task rest)
  show ?case
  proof (cases "updateTask (t_id task) (noUpdates\<lparr>u_courseId := Some c\<rparr>) w")
    case (Pair r w1)
    show ?thesis
    proof (cases r)
      case (Inl e)
      with Pair Cons.prems show ?thesis by simp
    next
      case (Inr v)
      with Pair Cons.prems have rest: "reassignAssociated c rest w1 = (Inr u, w')" by simp
      from Pair Inr Cons.prems
      have w1: "tasks w1 = map (repoint c' {t_id task}) (tasks w) \<and> courses w1 = courses w"
        by (simp add: reassign_step)
      have "map fst (tasks w1) = map fst (tasks w)"
        by (simp only: w1[THEN conjunct1] map_fst_repoint)
      with Cons.prems(2) have d1: "distinct (map fst (tasks w1))" by simp
      from Cons.IH[OF rest d1 Cons.prems(3)] w1 show ?thesis
        by (simp add: repoint_repoint o_def)
    qed
  qed
qed


lemma key_in_ids:
  assumes "wf_tasks w" "p \<in> set (tasks w)"
  shows "fst p \<in> t_id ` set (getTasksByCourse i w) \<longleftrightarrow> t_courseId (snd p) = i"
proof
  assume "fst p \<in> t_id ` set (getTasksByCourse i w)"
  then obtain q where q: "q \<in> set (tasks w)" "t_courseId (snd q) = i" "fst p = t_id (snd q)"
    by (auto simp: getTasksByCourse_def map_values_def)
  with assms have "fst q = fst p" by (auto simp: wf_tasks_def list_all_iff)
  with assms q have "snd q = snd p"
    using eq_key_imp_eq_value[of "tasks w" "fst p" "snd q" "snd p"]
    by (cases p, cases q) (auto simp: wf_tasks_def)
  with q show "t_courseId (snd p) = i" by simp
next
  assume "t_courseId (snd p) = i"
  with assms show "fst p \<in> t_id ` set (getTasksByCourse i w)"
    by (force simp: getTasksByCourse_def map_values_def wf_tasks_def list_all_iff)
qed

lemma cascade_tasks:
  assumes "wf_tasks w"
  shows "map_values (filter (\<lambda>p. fst p \<notin> t_id ` set (getTasksByCourse i w)) (tasks w))
       = filter (\<lambda>t. t_courseId t \<noteq> i) (getAllTasks w)"
proof -
  have "filter (\<lambda>p. fst p \<notin> t_id ` set (getTasksByCourse i w)) (tasks w)
      = filter (\<lambda>p. t_courseId (snd p) \<noteq> i) (tasks w)"
    by (rule filter_cong[OF refl]) (simp add: key_in_ids[OF assms])
  then show ?thesis by (simp add: map_values_def getAllTasks_def filter_map o_def)
qed

lemma reassign_tasks:
  assumes "wf_tasks w"
  shows "map_values (map (repoint c (t_id ` set (getTasksByCourse i w))) (tasks w))
       = map (\<lambda>t. if t_courseId t = i then t\<lparr>t_courseId := c\<rparr> else t) (getAllTasks w)"
proof -
  have "map (snd \<circ> repoint c (t_id ` set (getTasksByCourse i w))) (tasks w)
      = map ((\<lambda>t. if t_courseId t = i then t\<lparr>t_courseId := c\<rparr> else t) \<circ> snd) (tasks w)"
    by (rule map_cong[OF refl]) (simp add: repoint_def key_in_ids[OF assms])
  then show ?thesis by (simp add: map_values_def getAllTasks_def)
qed

lemma wf_course_key:
  "wf_courses w \<Longrightarrow> map_get c (courses w) = Some x \<Longrightarrow> trim c = c"
  by (force simp: wf_courses_def list_all_iff map_get_def dest: map_of_SomeD)

lemma getCourse_deleted: "courses w' = map_delete i (courses w) \<Longrightarrow> getCourse i w' = None"
  by (simp add: getCourse_def map_get_def map_of_map_delete)

lemma count_repointed:
  "target \<noteq> i \<Longrightarrow>
   length (filter (\<lambda>t. t_courseId t = target)
     (map (\<lambda>t. if t_courseId t = i then t\<lparr>t_courseId := target\<rparr> else t) xs))
   = length (filter (\<lambda>t. t_courseId t = i) xs) + length (filter (\<lambda>t. t_courseId t = target) xs)"
  by (induction xs) auto

lemmas eval_defs = world2_def task1_def course1_def course2_def deleteCourseWithTasks_def
  getTasksByCourse_def getAllTasks_def getCourse_def map_values_def map_get_def map_set_def
  map_delete_def updateTask_def deleteTask_def deleteCourse_def saveTasks_def saveCourses_def
  noUpdates_def validateNonEmptyString_def trim_def is_ws_def Let_def

text \<open>
  When the target course already has a task, more than the N reassigned tasks reference it
  afterwards: here N = 2 and three tasks reference \<open>c2\<close>.
\<close>

theorem reassign_target_had_tasks_counterexample:
  "length (getTasksByCourse ''c1'' world2) = 2
   \<and> fst (deleteCourseWithTasks True ''c1'' reassign (Some ''c2'') world2) = Inr ()
   \<and> length (getTasksByCourse ''c2''
        (snd (deleteCourseWithTasks True ''c1'' reassign (Some ''c2'') world2))) = 3"
  by (simp add: eval_defs)

text \<open>
  C3, amended. In a state that satisfies the invariants of the two maps, when
  \<^verbatim>\<open>deleteCourseWithTasks\<close> (of a CourseService that has its task service) returns
  success, no task references the id afterwards and the course is gone. Under
  \<open>cascade\<close> the tasks left are the tasks that did not reference the id, unchanged and
  in their order. Under \<open>reassign\<close> the tasks are the tasks of before with the courseId
  of those N replaced by the target: the tasks that reference the target afterwards are
  those N and the ones that referenced it before.
\<close>

theorem deleteCourseWithTasks_no_orphans:
  assumes "wf_tasks w" and "wf_courses w"
    and "deleteCourseWithTasks True i strategy targetCourseId w = (Inr u, w')"
  shows "getTasksByCourse i w' = [] \<and> getCourse i w' = None
     \<and> (case strategy of
          cascade \<Rightarrow> getAllTasks w' = filter (\<lambda>t. t_courseId t \<noteq> i) (getAllTasks w)
        | reassign \<Rightarrow>
            (case targetCourseId of
               None \<Rightarrow> False
             | Some target \<Rightarrow>
                 getAllTasks w' = map (\<lambda>t. if t_courseId t = i then t\<lparr>t_courseId := target\<rparr> else t)
                                    (getAllTasks w)
                 \<and> length (getTasksByCourse target w')
                     = length (getTasksByCourse i w) + length (getTasksByCourse target w)))"
proof (cases "map_get i (courses w)")
  case None
  with assms(3) show ?thesis by (simp add: deleteCourseWithTasks_def)
next
  case (Some existingCourse)
  show ?thesis
  proof (cases strategy)
    case cascade
    obtain r w1 where l: "deleteAssociated (getTasksByCourse i w) w = (r, w1)"
      by (cases "deleteAssociated (getTasksByCourse i w) w")
    with assms(3) Some cascade obtain v where r: "r = Inr v" and d: "deleteCourse i w1 = (Inr u, w')"
      by (cases r) (auto simp: deleteCourseWithTasks_def Let_def)
    from deleteAssociated_Inr[OF l[unfolded r]] deleteCourse_Inr[OF d]
    have t: "tasks w' = filter (\<lambda>p. fst p \<notin> t_id ` set (getTasksByCourse i w)) (tasks w)"
      and c: "courses w' = map_delete i (courses w)" by simp_all
    from t have g: "getAllTasks w' = filter (\<lambda>t. t_courseId t \<noteq> i) (getAllTasks w)"
      using cascade_tasks[OF assms(1), of i] by (simp add: getAllTasks_def)
    then have "getTasksByCourse i w' = []"
      by (simp add: getTasksByCourse_def getAllTasks_def filter_empty_conv)
    with g c cascade show ?thesis by (simp add: getCourse_deleted)
  next
    case reassign
    from assms(3) Some reassign obtain target where tg: "targetCourseId = Some target"
      by (cases targetCourseId) (auto simp: deleteCourseWithTasks_def Let_def)
    from assms(3) Some reassign tg have ne: "target \<noteq> []"
      by (auto simp: deleteCourseWithTasks_def Let_def split: if_splits)
    from assms(3) Some reassign tg ne obtain tc where tc: "map_get target (courses w) = Some tc"
      by (cases "map_get target (courses w)") (auto simp: deleteCourseWithTasks_def Let_def)
    from assms(3) Some reassign tg ne tc have ti: "target \<noteq> i"
      by (auto simp: deleteCourseWithTasks_def Let_def split: if_splits)
    have tr: "trim target = target" using assms(2) tc by (rule wf_course_key)
    with ne have v: "validateNonEmptyString target = Some target"
      by (simp add: validateNonEmptyString_def)
    obtain r w1 where l: "reassignAssociated target (getTasksByCourse i w) w = (r, w1)"
      by (cases "reassignAssociated target (getTasksByCourse i w) w")
    with assms(3) Some reassign tg ne tc ti obtain x where r: "r = Inr x"
      and d: "deleteCourse i w1 = (Inr u, w')"
      by (cases r) (auto simp: deleteCourseWithTasks_def Let_def)
    have dk: "distinct (map fst (tasks w))" using assms(1) by (simp add: wf_tasks_def)
    from reassignAssociated_Inr[OF l[unfolded r] dk v] deleteCourse_Inr[OF d]
    have t: "tasks w' = map (repoint target (t_id ` set (getTasksByCourse i w))) (tasks w)"
      and c: "courses w' = map_delete i (courses w)" by simp_all
    from t have g: "getAllTasks w' = map (\<lambda>t. if t_courseId t = i then t\<lparr>t_courseId := target\<rparr> else t)
                                    (getAllTasks w)"
      using reassign_tasks[OF assms(1), of target i] by (simp add: getAllTasks_def)
    have z: "getTasksByCourse i w' = []"
      using ti g by (auto simp: getTasksByCourse_def getAllTasks_def filter_empty_conv)
    have n: "length (getTasksByCourse target w')
                     = length (getTasksByCourse i w) + length (getTasksByCourse target w)"
      unfolding getTasksByCourse_def g[unfolded getAllTasks_def] using ti
      by (rule count_repointed)
    from z n g c reassign tg show ?thesis by (simp add: getCourse_deleted)
  qed
qed

theorem deleteCourseWithTasks_no_orphans_witness:
  "wf_tasks world2 \<and> wf_courses world2
   \<and> fst (deleteCourseWithTasks True ''c1'' reassign (Some ''c2'') world2) = Inr ()
   \<and> getTasksByCourse ''c1'' (snd (deleteCourseWithTasks True ''c1'' reassign (Some ''c2'') world2)) = []
   \<and> map t_courseId (getAllTasks (snd (deleteCourseWithTasks True ''c1'' reassign (Some ''c2'') world2)))
       = [''c2'', ''c2'', ''c2'']
   \<and> fst (deleteCourseWithTasks True ''c1'' cascade None world2) = Inr ()
   \<and> getTasksByCourse ''c1'' (snd (deleteCourseWithTasks True ''c1'' cascade None world2)) = []
   \<and> map t_id (getAllTasks (snd (deleteCourseWithTasks True ''c1'' cascade None world2))) = [''t2'']"
proof -
  have a: "wf_tasks world2" by (simp add: wf_tasks_def world2_def task1_def)
  have b: "wf_courses world2"
    by (simp add: wf_courses_def world2_def course1_def course2_def trim_def is_ws_def)
  have c: "fst (deleteCourseWithTasks True ''c1'' reassign (Some ''c2'') world2) = Inr ()"
    by (simp add: eval_defs)
  have d: "fst (deleteCourseWithTasks True ''c1'' cascade None world2) = Inr ()"
    by (simp add: eval_defs)
  have c': "deleteCourseWithTasks True ''c1'' reassign (Some ''c2'') world2
      = (Inr (), snd (deleteCourseWithTasks True ''c1'' reassign (Some ''c2'') world2))"
    using c by (metis prod.collapse)
  have d': "deleteCourseWithTasks True ''c1'' cascade None world2
      = (Inr (), snd (deleteCourseWithTasks True ''c1'' cascade None world2))"
    using d by (metis prod.collapse)
  have e: "map t_courseId (getAllTasks world2) = [''c1'', ''c2'', ''c1'']"
     and f: "map t_id (getAllTasks world2) = [''t1'', ''t2'', ''t3'']"
    by (simp_all add: getAllTasks_def map_values_def world2_def task1_def)
  from deleteCourseWithTasks_no_orphans[OF a b c'] deleteCourseWithTasks_no_orphans[OF a b d']
    a b c d
  show ?thesis
    by (simp add: getAllTasks_def map_values_def world2_def task1_def)
qed

section \<open>C7: the dates between the bounds of a week are in the week\<close>



section \<open>C6: the bounds of a week\<close>

text \<open>
  \<^verbatim>\<open>endDate\<close> is the Sunday at 00:00:00 on the local clock, not the Sunday at
  23:59:59: in UTC and in New York alike.
\<close>

theorem week_end_is_midnight_counterexample:
  "valid_week 1 2024
   \<and> snd (getWeekBounds utcZone 1 2024) = DateAt 1704585600000
   \<and> TimeWithinDay (LocalTime utcZone 1704585600000) = 0
   \<and> TimeWithinDay (LocalTime utcZone 1704585600000) \<noteq> 23 * 3600000 + 59 * 60000 + 59 * 1000
   \<and> snd (getWeekBounds newYork 1 2024) = DateAt 1704603600000
   \<and> TimeWithinDay (LocalTime newYork 1704603600000) = 0
   \<and> TimeWithinDay (LocalTime newYork 1704603600000) \<noteq> 23 * 3600000 + 59 * 60000 + 59 * 1000"
  by code_simp

text \<open>
  C6, amended. For every valid \<open>(weekNumber, year)\<close> and in every zone,
  \<^verbatim>\<open>getWeekBounds\<close> returns as \<open>startDate\<close> the local midnight that begins the
  Monday of that ISO week, and as \<open>endDate\<close> the local midnight that begins the Sunday of
  that ISO week. The Monday is day \<open>m\<close>: the Monday of the week of 4 January plus
  \<open>(weekNumber - 1) * 7\<close> days, whose Thursday is in \<open>year\<close> and is Thursday number
  \<open>weekNumber\<close> of it; the Sunday is six days later. In a zone that is steady in the
  week both dates read 00:00:00.000 of those days on the local clock, \<open>endDate\<close> is
  six days after \<open>startDate\<close> to the millisecond, and \<^verbatim>\<open>getWeekNumber\<close> gives
  \<open>(weekNumber, year)\<close> for both.
\<close>

theorem week_bounds_monday_to_sunday:
  assumes "valid_week weekNumber year"
  shows "\<exists>m. m = Day (Date_UTC year 0 4) - (isoDay (Day (Date_UTC year 0 4)) - 1)
               + (weekNumber - 1) * 7
     \<and> WeekDay (m * msPerDay) = 1 \<and> WeekDay ((m + 6) * msPerDay) = 0
     \<and> YearFromDay (m + 3) = year \<and> (m + 3 - DayFromYear year) div 7 + 1 = weekNumber
     \<and> getWeekBounds z weekNumber year
         = (DateAt (UTC z (m * msPerDay)), DateAt (UTC z ((m + 6) * msPerDay)))
     \<and> (steady_week z weekNumber year \<longrightarrow>
          (\<exists>s e. getWeekBounds z weekNumber year = (DateAt s, DateAt e)
             \<and> e = s + 6 * msPerDay
             \<and> Day (LocalTime z s) = m \<and> TimeWithinDay (LocalTime z s) = 0 \<and> getDay z s = 1
             \<and> getWeekNumber z (DateAt s) = Some (weekNumber, year)
             \<and> Day (LocalTime z e) = m + 6 \<and> TimeWithinDay (LocalTime z e) = 0 \<and> getDay z e = 0
             \<and> getWeekNumber z (DateAt e) = Some (weekNumber, year)))"
proof -
  let ?S = "weekStart weekNumber year"
  from assms have w: "1 \<le> weekNumber" "weekNumber \<le> weeksInYear year"
    and yr: "year < 0 \<or> 99 < year"
    by (auto simp: valid_week_def twoDigitYear_def)
  have j4: "Day (Date_UTC year 0 4) = DayFromYear year + 3"
    using Date_UTC_jan[OF yr, of 4] by (simp add: Day_ms)
  have m: "?S = Day (Date_UTC year 0 4) - (isoDay (Day (Date_UTC year 0 4)) - 1)
             + (weekNumber - 1) * 7"
    by (simp add: j4 weekStart_def week1Monday_def)
  have mon: "WeekDay (?S * msPerDay) = 1"
    using weekStart_monday[of weekNumber year] by (simp add: WeekDay_def Day_ms)
  have sun: "WeekDay ((?S + 6) * msPerDay) = 0"
    using weekStart_sunday[of weekNumber year] by (simp add: WeekDay_def Day_ms)
  from weekStart_thursday[OF w] have ty: "YearFromDay (?S + 3) = year"
    by (intro YearFromDay_unique) simp_all
  have ix: "(?S + 3 - DayFromYear year) div 7 + 1 = weekNumber"
    using w(1) by (rule week_index_div)
  have bd: "getWeekBounds z weekNumber year
      = (DateAt (UTC z (?S * msPerDay)), DateAt (UTC z ((?S + 6) * msPerDay)))"
    using assms by (rule getWeekBounds_eq)
  have st: "\<exists>s e. getWeekBounds z weekNumber year = (DateAt s, DateAt e)
             \<and> e = s + 6 * msPerDay
             \<and> Day (LocalTime z s) = ?S \<and> TimeWithinDay (LocalTime z s) = 0 \<and> getDay z s = 1
             \<and> getWeekNumber z (DateAt s) = Some (weekNumber, year)
             \<and> Day (LocalTime z e) = ?S + 6 \<and> TimeWithinDay (LocalTime z e) = 0
             \<and> getDay z e = 0
             \<and> getWeekNumber z (DateAt e) = Some (weekNumber, year)"
    if sw: "steady_week z weekNumber year"
  proof -
    from steady_week_bounds[OF sw] obtain c where
      s: "UTC z (?S * msPerDay) = ?S * msPerDay - c"
      and e: "UTC z ((?S + 6) * msPerDay) = (?S + 6) * msPerDay - c"
      and l: "\<And>t. ?S * msPerDay - c \<le> t \<Longrightarrow> t \<le> (?S + 6) * msPerDay - c
             \<Longrightarrow> LocalTime z t = t + c"
      by blast
    have le: "?S * msPerDay \<le> (?S + 6) * msPerDay" by (simp add: msPerDay_def)
    have ls: "LocalTime z (?S * msPerDay - c) = ?S * msPerDay"
      using l[of "?S * msPerDay - c"] le by simp
    have lE: "LocalTime z ((?S + 6) * msPerDay - c) = (?S + 6) * msPerDay"
      using l[of "(?S + 6) * msPerDay - c"] le by simp
    have d: "(?S + 6) * msPerDay - c = ?S * msPerDay - c + 6 * msPerDay"
      by (simp add: algebra_simps)
    have ws: "getWeekNumber z (DateAt (?S * msPerDay - c)) = Some (weekNumber, year)"
      using assms by (intro getWeekNumber_in_week) (simp_all add: ls Day_ms)
    have we: "getWeekNumber z (DateAt ((?S + 6) * msPerDay - c)) = Some (weekNumber, year)"
      using assms by (intro getWeekNumber_in_week) (simp_all add: lE Day_ms)
    have f1: "Day (LocalTime z (?S * msPerDay - c)) = ?S"
      and f2: "TimeWithinDay (LocalTime z (?S * msPerDay - c)) = 0"
      and f3: "getDay z (?S * msPerDay - c) = 1"
      using mon by (simp_all only: ls getDay_def Day_ms)
    have g1: "Day (LocalTime z ((?S + 6) * msPerDay - c)) = ?S + 6"
      and g2: "TimeWithinDay (LocalTime z ((?S + 6) * msPerDay - c)) = 0"
      and g3: "getDay z ((?S + 6) * msPerDay - c) = 0"
      using sun by (simp_all only: lE getDay_def Day_ms)
    from d f1 f2 f3 ws g1 g2 g3 we show ?thesis
      unfolding bd s e by blast
  qed
  show ?thesis
    unfolding m[symmetric] using mon sun ty ix bd st by blast
qed

theorem week_bounds_monday_to_sunday_witness:
  "valid_week 44 2024 \<and> steady_week newYork 44 2024
   \<and> getWeekBounds newYork 44 2024 = (DateAt 1730088000000, DateAt 1730606400000)
   \<and> 1730606400000 = 1730088000000 + 6 * msPerDay
   \<and> getDay newYork 1730088000000 = 1 \<and> TimeWithinDay (LocalTime newYork 1730088000000) = 0
   \<and> getDay newYork 1730606400000 = 0 \<and> TimeWithinDay (LocalTime newYork 1730606400000) = 0
   \<and> getWeekNumber newYork (DateAt 1730088000000) = Some (44, 2024)
   \<and> getWeekNumber newYork (DateAt 1730606400000) = Some (44, 2024)"
proof -
  have a: "valid_week 44 2024" by code_simp
  have s: "steady_week newYork 44 2024" by code_simp
  have b: "getWeekBounds newYork 44 2024 = (DateAt 1730088000000, DateAt 1730606400000)"
    by code_simp
  from week_bounds_monday_to_sunday[OF a, of newYork] a s b show ?thesis by auto
qed

section \<open>C9: the weekly statistics\<close>





end
